theory Spec2Isabelle
  imports Complex_Main "HOL-Library.Sublist" "HOL-Library.Multiset"
begin

section \<open>Strings\<close>

text \<open>
  A Python string is the list of its Unicode code points. The Unicode tables behind
  \<^verbatim>\<open>str.lower\<close>, \<^verbatim>\<open>str.isspace\<close> (the characters \<^verbatim>\<open>str.strip\<close> removes) and the class
  \<^verbatim>\<open>\w\<close> of \<^verbatim>\<open>re\<close> belong to the interpreter: they are parameters of the model, and every
  theorem holds whatever they are. A string literal of the source is the list of the code
  points of its characters.
\<close>

type_synonym codepoint = nat
type_synonym str = "codepoint list"

definition lit :: "string \<Rightarrow> str" where
  "lit s = map of_char s"

record builtins =
  to_lower :: "str \<Rightarrow> str"
  isspace :: "codepoint \<Rightarrow> bool"
  isword :: "codepoint \<Rightarrow> bool"

definition lower :: "builtins \<Rightarrow> str \<Rightarrow> str" where
  \<comment> \<open>\<^verbatim>\<open>str.lower\<close>: the empty string has nothing to fold\<close>
  "lower py s = (if s = [] then [] else to_lower py s)"

definition strip :: "builtins \<Rightarrow> str \<Rightarrow> str" where
  "strip py s = rev (dropWhile (isspace py) (rev (dropWhile (isspace py) s)))"

definition word_boundary :: "builtins \<Rightarrow> str \<Rightarrow> nat \<Rightarrow> bool" where
  \<comment> \<open>\<^verbatim>\<open>\b\<close> at position \<open>p\<close>: exactly one of the characters before and after \<open>p\<close> is a
      word character, the ends of the text counting as non-word\<close>
  "word_boundary py s p =
     ((0 < p \<and> isword py (s ! (p - 1))) \<noteq> (p < length s \<and> isword py (s ! p)))"

definition re_search_word :: "builtins \<Rightarrow> str \<Rightarrow> str \<Rightarrow> bool" where
  \<comment> \<open>\<^verbatim>\<open>re.search(r'\b' + re.escape(keyword) + r'\b', text)\<close> finds a match: the escaped
      keyword matches itself literally, at some offset \<open>i\<close>, between two \<^verbatim>\<open>\b\<close>\<close>
  "re_search_word py keyword s =
     list_ex (\<lambda>i. take (length keyword) (drop i s) = keyword
                  \<and> word_boundary py s i \<and> word_boundary py s (i + length keyword))
       [0..<Suc (length s)]"

section \<open>Time\<close>

text \<open>
  A \<^verbatim>\<open>datetime\<close> is its wall-clock reading in microseconds since 0001-01-01 00:00:00,
  together with the UTC offset of its \<^verbatim>\<open>tzinfo\<close>, if it has one; the readings a
  \<^verbatim>\<open>datetime\<close> can hold end with 9999-12-31 23:59:59.999999. A \<^verbatim>\<open>timedelta\<close> is a number
  of microseconds, of at most 999999999 days in magnitude. Building a value outside these
  ranges raises \<^verbatim>\<open>OverflowError\<close>. A reading of the clock carries what \<^verbatim>\<open>datetime.now()\<close>
  (naive, local) and \<^verbatim>\<open>datetime.now(tz)\<close> (aware) return at that moment.
\<close>

datatype error = ValueError | IndexError | OverflowError

record datetime =
  wall :: int
  utcoffset :: "int option"

record reading =
  local_now :: int
  utc_now :: int

definition days :: "int \<Rightarrow> int" where
  \<comment> \<open>\<open>n\<close> days in microseconds\<close>
  "days n = n * 86400000000"

definition valid_datetime :: "int \<Rightarrow> bool" where
  \<comment> \<open>from \<^verbatim>\<open>datetime.min\<close> to \<^verbatim>\<open>datetime.max\<close>: 3652059 days\<close>
  "valid_datetime t = (0 \<le> t \<and> t < days 3652059)"

definition timedelta :: "int \<Rightarrow> error + int" where
  \<comment> \<open>\<^verbatim>\<open>timedelta(days=n)\<close>\<close>
  "timedelta n =
     (if - 999999999 \<le> n \<and> n \<le> 999999999 then Inr (days n) else Inl OverflowError)"

definition datetime_sub :: "int \<Rightarrow> int \<Rightarrow> error + int" where
  \<comment> \<open>\<^verbatim>\<open>datetime - timedelta\<close>\<close>
  "datetime_sub t delta =
     (if valid_datetime (t - delta) then Inr (t - delta) else Inl OverflowError)"

definition cutoff_date :: "int \<Rightarrow> int \<Rightarrow> error + int" where
  \<comment> \<open>\<^verbatim>\<open>datetime.now() - timedelta(days=self.lookback_days)\<close>\<close>
  "cutoff_date now lookback =
     (case timedelta lookback of Inl e \<Rightarrow> Inl e | Inr delta \<Rightarrow> datetime_sub now delta)"

section \<open>Articles\<close>

record article =
  title :: str
  description :: "str option"
  url :: str
  published_at :: "datetime option"
  source :: str
  category :: str
  image_url :: "str option"
  hash :: str
  relevance_score :: real

definition validate_url :: "str \<Rightarrow> error + str" where
  "validate_url v =
     (if prefix (lit ''http://'') v \<or> prefix (lit ''https://'') v then Inr v else Inl ValueError)"

definition generate_hash :: "builtins \<Rightarrow> (str \<Rightarrow> str) \<Rightarrow> article \<Rightarrow> str" where
  \<comment> \<open>\<open>md5 content\<close> stands for \<^verbatim>\<open>hashlib.md5(content.encode('utf-8')).hexdigest()\<close>\<close>
  "generate_hash py md5 self = md5 (strip py (lower py (title self)) @ url self)"

definition model_post_init :: "builtins \<Rightarrow> (str \<Rightarrow> str) \<Rightarrow> article \<Rightarrow> article" where
  "model_post_init py md5 self =
     (if hash self = [] then self\<lparr>hash := generate_hash py md5 self\<rparr> else self)"

definition Article :: "builtins \<Rightarrow> (str \<Rightarrow> str) \<Rightarrow> article \<Rightarrow> error + article" where
  \<comment> \<open>the constructor: the argument holds the keyword arguments, a field that was not given
      holding its default (an empty \<open>hash\<close>, \<open>relevance_score = 0\<close>)\<close>
  "Article py md5 kwargs =
     (case validate_url (url kwargs) of
        Inl e \<Rightarrow> Inl e
      | Inr v \<Rightarrow> Inr (model_post_init py md5 (kwargs\<lparr>url := v\<rparr>)))"

section \<open>Settings\<close>

record settings =
  include_keywords :: "str list"
  exclude_keywords :: "str list"
  max_articles :: int
  min_relevance_score :: real
  recency_weight :: real
  max_age_days :: int
  deduplication_enabled :: bool
  similarity_threshold :: real
  lookback_days :: int

section \<open>The article filter\<close>

record article_filter =
  self_include_keywords :: "str list"
  self_exclude_keywords :: "str list"
  self_max_articles :: int
  min_score :: real
  source_reputation :: "(str \<times> real) list"

definition ArticleFilter :: "builtins \<Rightarrow> settings \<Rightarrow> article_filter" where
  "ArticleFilter py st =
     \<lparr> self_include_keywords = map (lower py) (include_keywords st),
       self_exclude_keywords = map (lower py) (exclude_keywords st),
       self_max_articles = max_articles st,
       min_score = min_relevance_score st,
       source_reputation =
         [(lit ''mit'', 2.0), (lit ''ieee'', 2.0), (lit ''arxiv'', 1.5), (lit ''openai'', 1.5),
          (lit ''deepmind'', 1.5), (lit ''google ai'', 1.5), (lit ''wired'', 1.0),
          (lit ''techcrunch'', 1.0), (lit ''venturebeat'', 1.0)] \<rparr>"

fun keyword_loop :: "builtins \<Rightarrow> str list \<Rightarrow> str \<Rightarrow> real \<Rightarrow> real" where
  "keyword_loop py [] text_lower score = score"
| "keyword_loop py (keyword # rest) text_lower score =
     keyword_loop py rest text_lower
       (if re_search_word py keyword text_lower then score + 1.0 else score)"

definition calculate_keyword_score :: "builtins \<Rightarrow> article_filter \<Rightarrow> str \<Rightarrow> real" where
  "calculate_keyword_score py self s =
     (if s = [] then 0.0 else keyword_loop py (self_include_keywords self) (lower py s) 0.0)"

fun reputation_loop :: "(str \<times> real) list \<Rightarrow> str \<Rightarrow> real" where
  "reputation_loop [] source_lower = 0.5"
| "reputation_loop ((key, score) # rest) source_lower =
     (if sublist key source_lower then score else reputation_loop rest source_lower)"

definition get_source_reputation_score :: "builtins \<Rightarrow> article_filter \<Rightarrow> str \<Rightarrow> real" where
  "get_source_reputation_score py self source_name =
     reputation_loop (source_reputation self) (lower py source_name)"

definition exclusion_text :: "builtins \<Rightarrow> article \<Rightarrow> str" where
  \<comment> \<open>\<^verbatim>\<open>f"{article.title} {article.description or ''}".lower()\<close>\<close>
  "exclusion_text py a =
     lower py (title a @ lit '' '' @ (case description a of None \<Rightarrow> [] | Some d \<Rightarrow> d))"

fun exclude_loop :: "builtins \<Rightarrow> str list \<Rightarrow> str \<Rightarrow> bool" where
  "exclude_loop py [] s = False"
| "exclude_loop py (keyword # rest) s =
     (if re_search_word py keyword s then True else exclude_loop py rest s)"

definition should_exclude :: "builtins \<Rightarrow> article_filter \<Rightarrow> article \<Rightarrow> bool" where
  "should_exclude py self a = exclude_loop py (self_exclude_keywords self) (exclusion_text py a)"

definition age_hours :: "reading \<Rightarrow> datetime \<Rightarrow> real" where
  \<comment> \<open>\<^verbatim>\<open>(now - published_at).total_seconds() / 3600\<close>, \<open>now\<close> read in the zone of
      \<open>published_at\<close> when it has one\<close>
  "age_hours clk p =
     (case utcoffset p of
        None \<Rightarrow> real_of_int (local_now clk - wall p) / 1000000 / 3600
      | Some off \<Rightarrow> real_of_int (utc_now clk - (wall p - off)) / 1000000 / 3600)"

definition get_recency_boost :: "settings \<Rightarrow> reading \<Rightarrow> article \<Rightarrow> real" where
  "get_recency_boost st clk a =
     (case published_at a of
        None \<Rightarrow> 1.0
      | Some p \<Rightarrow>
          if age_hours clk p \<le> 24 then recency_weight st
          else if age_hours clk p \<le> 48 then 1.0 + (recency_weight st - 1.0) * 0.5
          else 1.0)"

definition calculate_relevance_score ::
  "builtins \<Rightarrow> settings \<Rightarrow> article_filter \<Rightarrow> reading \<Rightarrow> article \<Rightarrow> real" where
  "calculate_relevance_score py st self clk a =
     (let score = 0.0;
          title_score = calculate_keyword_score py self (title a);
          score = score + title_score * 3.0;
          description_score =
            calculate_keyword_score py self (case description a of None \<Rightarrow> [] | Some d \<Rightarrow> d);
          score = score + description_score * 1.0;
          reputation_score = get_source_reputation_score py self (source a);
          score = score + reputation_score;
          recency_boost = get_recency_boost st clk a
      in score * recency_boost)"

text \<open>
  Articles are objects: a batch is a list of references into a heap, and scoring writes
  \<open>relevance_score\<close> through the reference. The clock is read once for the recency filter
  (\<open>clock 0\<close>) and once more while the \<open>j\<close>-th recent article is scored (\<open>clock (Suc j)\<close>).
\<close>

type_synonym ref = nat
type_synonym heap = "ref \<Rightarrow> article"

definition is_recent :: "int \<Rightarrow> reading \<Rightarrow> article \<Rightarrow> bool" where
  \<comment> \<open>\<^verbatim>\<open>now - published_at.replace(tzinfo=None) <= max_age\<close>; undated articles are kept\<close>
  "is_recent max_age clk a =
     (case published_at a of
        None \<Rightarrow> True
      | Some p \<Rightarrow> local_now clk - wall p \<le> max_age)"

fun score_loop ::
  "builtins \<Rightarrow> settings \<Rightarrow> article_filter \<Rightarrow> (nat \<Rightarrow> reading) \<Rightarrow> nat \<Rightarrow> ref list \<Rightarrow> heap \<Rightarrow> heap" where
  "score_loop py st self clock j [] h = h"
| "score_loop py st self clock j (r # rs) h =
     score_loop py st self clock (Suc j) rs
       (h(r := (h r)\<lparr>relevance_score := calculate_relevance_score py st self (clock (Suc j)) (h r)\<rparr>))"

definition sorted_desc :: "heap \<Rightarrow> ref list \<Rightarrow> ref list" where
  \<comment> \<open>\<^verbatim>\<open>sorted(xs, key=lambda x: x.relevance_score, reverse=True)\<close>: the stable sort, largest
      first\<close>
  "sorted_desc h xs = sort_key (\<lambda>r. - relevance_score (h r)) xs"

definition slice_to :: "'a list \<Rightarrow> int \<Rightarrow> 'a list" where
  \<comment> \<open>\<^verbatim>\<open>xs[:n]\<close>: a negative \<open>n\<close> counts from the end\<close>
  "slice_to xs n = (if 0 \<le> n then take (nat n) xs else take (length xs - nat (- n)) xs)"

definition filter_and_rank ::
  "builtins \<Rightarrow> settings \<Rightarrow> article_filter \<Rightarrow> (nat \<Rightarrow> reading) \<Rightarrow> heap \<Rightarrow> ref list \<Rightarrow>
   (error + ref list) \<times> heap" where
  \<comment> \<open>\<^verbatim>\<open>timedelta(days=settings.max_age_days)\<close> is built after the exclusion filter; when it
      raises, the exception leaves the function\<close>
  "filter_and_rank py st self clock h articles =
     (let filtered = filter (\<lambda>r. \<not> should_exclude py self (h r)) articles in
      if filtered = [] then (Inr [], h)
      else
        case timedelta (max_age_days st) of
          Inl e \<Rightarrow> (Inl e, h)
        | Inr max_age \<Rightarrow>
            let recent_articles = filter (\<lambda>r. is_recent max_age (clock 0) (h r)) filtered in
            if recent_articles = [] then (Inr [], h)
            else
              let h' = score_loop py st self clock 0 recent_articles h;
                  scored_articles =
                    filter (\<lambda>r. min_score self \<le> relevance_score (h' r)) recent_articles
              in
              if scored_articles = [] then (Inr [], h')
              else
                let ranked_articles = sorted_desc h' scored_articles;
                    top_articles = slice_to ranked_articles (self_max_articles self)
                in
                if top_articles = [] then (Inl IndexError, h')
                else (Inr top_articles, h'))"

definition survivors ::
  "builtins \<Rightarrow> settings \<Rightarrow> article_filter \<Rightarrow> (nat \<Rightarrow> reading) \<Rightarrow> heap \<Rightarrow> ref list \<Rightarrow> ref list" where
  \<comment> \<open>the articles of a batch that pass the exclusion test and the recency test of
      \<open>max_age_days\<close> days\<close>
  "survivors py st self clock h articles =
     filter (\<lambda>r. is_recent (days (max_age_days st)) (clock 0) (h r))
       (filter (\<lambda>r. \<not> should_exclude py self (h r)) articles)"

section \<open>The deduplication cache\<close>

text \<open>
  The cache file holds a JSON object from fingerprints to ISO time stamps. Each value is
  modelled by what \<^verbatim>\<open>datetime.fromisoformat\<close> and the comparison with the naive cutoff make
  of it: a naive time in microseconds, or an exception (not a string, not a time stamp, or a
  time with a zone). The file itself is missing, or cannot be opened or decoded, or decodes to
  something other than an object, or holds entries. The world records every access to the
  cache directory and file, in order.
\<close>

datatype stamp = Stamp int | Unparsable

datatype cache_file = Missing | Unreadable | NotObject | Entries "str \<rightharpoonup> stamp"

datatype io_event = MkDir | Exists | Read | Write

record world =
  cache :: cache_file
  writable :: bool
  trace :: "io_event list"

definition access :: "io_event \<Rightarrow> world \<Rightarrow> world" where
  "access e w = w\<lparr>trace := trace w @ [e]\<rparr>"

record deduplicator =
  self_similarity_threshold :: real
  self_lookback_days :: int
  seen_hashes :: "str set"

definition fresh :: "int \<Rightarrow> stamp \<Rightarrow> bool" where
  \<comment> \<open>\<^verbatim>\<open>datetime.fromisoformat(timestamp) >= cutoff_date\<close>, where it does not raise\<close>
  "fresh cutoff s = (case s of Stamp t \<Rightarrow> cutoff \<le> t | Unparsable \<Rightarrow> False)"

definition load_cache :: "deduplicator \<Rightarrow> int \<Rightarrow> world \<Rightarrow> deduplicator \<times> world" where
  \<comment> \<open>\<open>now\<close> is the reading of \<^verbatim>\<open>datetime.now()\<close>; an entry that raises is skipped with a
      warning; any other exception (a file that cannot be read or decoded, a decoded value
      that is not a dict, a cutoff out of range) empties the set\<close>
  "load_cache self now w =
     (let w = access Exists w in
      case cache w of
        Missing \<Rightarrow> (self, w)
      | Unreadable \<Rightarrow> (self\<lparr>seen_hashes := {}\<rparr>, access Read w)
      | NotObject \<Rightarrow> (self\<lparr>seen_hashes := {}\<rparr>, access Read w)
      | Entries cache_data \<Rightarrow>
          (case cutoff_date now (self_lookback_days self) of
             Inl e \<Rightarrow> (self\<lparr>seen_hashes := {}\<rparr>, access Read w)
           | Inr cutoff \<Rightarrow>
               (self\<lparr>seen_hashes :=
                       seen_hashes self \<union> {h. \<exists>s. cache_data h = Some s \<and> fresh cutoff s}\<rparr>,
                access Read w)))"

definition Deduplicator :: "settings \<Rightarrow> int \<Rightarrow> world \<Rightarrow> deduplicator \<times> world" where
  \<comment> \<open>the constructor; reading \<^verbatim>\<open>settings.deduplication_cache_file\<close> creates the cache
      directory when it is absent\<close>
  "Deduplicator st now w =
     load_cache
       \<lparr> self_similarity_threshold = similarity_threshold st,
         self_lookback_days = lookback_days st,
         seen_hashes = {} \<rparr>
       now (access MkDir w)"

fun add_hashes :: "article list \<Rightarrow> stamp \<Rightarrow> (str \<rightharpoonup> stamp) \<Rightarrow> (str \<rightharpoonup> stamp)" where
  "add_hashes [] now cache_data = cache_data"
| "add_hashes (a # rest) now cache_data = add_hashes rest now (cache_data(hash a \<mapsto> now))"

definition prune :: "int \<Rightarrow> (str \<rightharpoonup> stamp) \<Rightarrow> (str \<rightharpoonup> stamp)" where
  "prune cutoff cache_data =
     (\<lambda>h. case cache_data h of
             None \<Rightarrow> None
           | Some s \<Rightarrow> if fresh cutoff s then Some s else None)"

definition load_existing :: "cache_file \<Rightarrow> (str \<rightharpoonup> stamp) option" where
  \<comment> \<open>\<open>cache_data\<close> after the existing file was loaded: a file that is missing or cannot be
      read gives the empty dict; \<open>None\<close> stands for a decoded value that is not a dict\<close>
  "load_existing f =
     (case f of
        Missing \<Rightarrow> Some Map.empty
      | Unreadable \<Rightarrow> Some Map.empty
      | NotObject \<Rightarrow> None
      | Entries m \<Rightarrow> Some m)"

definition save_cache :: "deduplicator \<Rightarrow> int \<times> int \<Rightarrow> article list \<Rightarrow> world \<Rightarrow> world" where
  \<comment> \<open>the clock is read twice: \<open>fst now\<close> stamps the new entries, \<open>snd now\<close> gives the cutoff.
      An existing file that cannot be read counts as empty. Every exception after that (an
      old value that is not a dict, a cutoff out of range, an entry whose stamp raises, a
      failing write) is logged and leaves the file as it was.\<close>
  "save_cache self now articles w =
     (let w = access Exists w;
          w = (if cache w = Missing then w else access Read w)
      in
      case load_existing (cache w) of
        None \<Rightarrow> w
      | Some cache_data \<Rightarrow>
          let cache_data = add_hashes articles (Stamp (fst now)) cache_data in
          case cutoff_date (snd now) (self_lookback_days self) of
            Inl e \<Rightarrow> w
          | Inr cutoff \<Rightarrow>
              if \<exists>h. cache_data h = Some Unparsable then w
              else if writable w
              then access Write (w\<lparr>cache := Entries (prune cutoff cache_data)\<rparr>)
              else w)"

section \<open>The deduplicator\<close>

text \<open>
  \<^verbatim>\<open>Levenshtein.ratio\<close> is a parameter of the model, \<open>ratio\<close>: a similarity in \<open>[0, 1]\<close>.
\<close>

definition is_similar ::
  "builtins \<Rightarrow> deduplicator \<Rightarrow> (str \<Rightarrow> str \<Rightarrow> real) \<Rightarrow> str \<Rightarrow> str \<Rightarrow> bool" where
  "is_similar py self ratio title1 title2 =
     (let t1 = strip py (lower py title1);
          t2 = strip py (lower py title2);
          similarity = ratio t1 t2
      in self_similarity_threshold self \<le> similarity)"

fun near_duplicate ::
  "builtins \<Rightarrow> deduplicator \<Rightarrow> (str \<Rightarrow> str \<Rightarrow> real) \<Rightarrow> str \<Rightarrow> str list \<Rightarrow> bool" where
  \<comment> \<open>the inner loop: \<open>is_duplicate\<close> after it\<close>
  "near_duplicate py self ratio t [] = False"
| "near_duplicate py self ratio t (seen_title # rest) =
     (if is_similar py self ratio t seen_title then True else near_duplicate py self ratio t rest)"

fun dedup_loop ::
  "builtins \<Rightarrow> deduplicator \<Rightarrow> (str \<Rightarrow> str \<Rightarrow> real) \<Rightarrow> article list \<Rightarrow>
   article list \<times> str set \<times> str list \<Rightarrow> article list \<times> str set \<times> str list" where
  \<comment> \<open>the state is \<open>(unique_articles, current_hashes, seen_titles)\<close>\<close>
  "dedup_loop py self ratio [] state = state"
| "dedup_loop py self ratio (a # rest) (unique_articles, current_hashes, seen_titles) =
     (if hash a \<in> seen_hashes self \<or> hash a \<in> current_hashes
      then dedup_loop py self ratio rest (unique_articles, current_hashes, seen_titles)
      else if near_duplicate py self ratio (title a) seen_titles
      then dedup_loop py self ratio rest (unique_articles, current_hashes, seen_titles)
      else dedup_loop py self ratio rest
             (unique_articles @ [a], insert (hash a) current_hashes, seen_titles @ [title a]))"

definition deduplicate ::
  "builtins \<Rightarrow> settings \<Rightarrow> deduplicator \<Rightarrow> (str \<Rightarrow> str \<Rightarrow> real) \<Rightarrow> int \<times> int \<Rightarrow>
   article list \<Rightarrow> world \<Rightarrow> article list \<times> world" where
  "deduplicate py st self ratio now articles w =
     (if \<not> deduplication_enabled st then (articles, w)
      else
        let unique_articles = fst (dedup_loop py self ratio articles ([], {}, [])) in
        (unique_articles, save_cache self now unique_articles w))"

definition deduplication_step ::
  "builtins \<Rightarrow> settings \<Rightarrow> (str \<Rightarrow> str \<Rightarrow> real) \<Rightarrow> int \<Rightarrow> int \<times> int \<Rightarrow> article list \<Rightarrow>
   world \<Rightarrow> article list \<times> world" where
  \<comment> \<open>step 2 of the pipeline: \<^verbatim>\<open>Deduplicator().deduplicate(articles)\<close>; \<open>t0\<close> is the clock
      reading of the constructor, \<open>now\<close> the two readings of the save\<close>
  "deduplication_step py st ratio t0 now articles w =
     (let (deduplicator, w) = Deduplicator st t0 w
      in deduplicate py st deduplicator ratio now articles w)"

section \<open>Reference definitions\<close>

text \<open>
  The single pass as the specification words it: an article is dropped when its fingerprint
  is cached or is that of an article accepted earlier, otherwise dropped when its normalized
  title is similar to the title of an article accepted earlier, and accepted otherwise.
\<close>

definition spec_similar ::
  "builtins \<Rightarrow> real \<Rightarrow> (str \<Rightarrow> str \<Rightarrow> real) \<Rightarrow> article \<Rightarrow> article \<Rightarrow> bool" where
  "spec_similar py threshold ratio a b =
     (threshold \<le> ratio (strip py (lower py (title a))) (strip py (lower py (title b))))"

fun spec_single_pass ::
  "str set \<Rightarrow> (article \<Rightarrow> article \<Rightarrow> bool) \<Rightarrow> article list \<Rightarrow> article list \<Rightarrow> article list" where
  "spec_single_pass cached similar accepted [] = accepted"
| "spec_single_pass cached similar accepted (a # rest) =
     (if hash a \<in> cached \<or> (\<exists>b \<in> set accepted. hash b = hash a)
      then spec_single_pass cached similar accepted rest
      else if \<exists>b \<in> set accepted. similar a b
      then spec_single_pass cached similar accepted rest
      else spec_single_pass cached similar (accepted @ [a]) rest)"

text \<open>
  A whole-word occurrence of a word in a text, as the specification words it: the word stands
  in the text with no word character right before it and none right after it.
\<close>

definition whole_word_in :: "builtins \<Rightarrow> str \<Rightarrow> str \<Rightarrow> bool" where
  "whole_word_in py word s =
     (\<exists>before after. s = before @ word @ after
        \<and> (before = [] \<or> \<not> isword py (last before))
        \<and> (after = [] \<or> \<not> isword py (hd after)))"


text \<open>
  A word that begins and ends with a word character.
\<close>

definition word_edges :: "builtins \<Rightarrow> str \<Rightarrow> bool" where
  "word_edges py k = (k \<noteq> [] \<and> isword py (hd k) \<and> isword py (last k))"

text \<open>
  The keyword score as the specification words it: the number of distinct configured
  keywords that occur in the text as case-insensitive whole words. The recency multiplier:
  the full weight up to 24 hours of age, half the boost up to 48 hours, and 1 for older or
  undated articles.
\<close>

definition spec_keyword_count :: "builtins \<Rightarrow> str list \<Rightarrow> str \<Rightarrow> nat" where
  "spec_keyword_count py keywords s =
     card {k \<in> set keywords. whole_word_in py (lower py k) (lower py s)}"

definition spec_recency_multiplier :: "real \<Rightarrow> real option \<Rightarrow> real" where
  "spec_recency_multiplier weight age =
     (case age of
        None \<Rightarrow> 1
      | Some hours \<Rightarrow>
          if hours \<le> 24 then weight
          else if hours \<le> 48 then 1 + (weight - 1) * 0.5
          else 1)"

section \<open>Example inputs\<close>

text \<open>
  The examples are ASCII texts, on which the interpreter's tables are these: \<open>A\<close> to \<open>Z\<close>
  are lower-cased by adding 32, white space is 9 to 13 and 28 to 32, and the word characters
  are the digits, the letters and the underscore. In the examples the digest is the identity,
  under which no two contents collide.
\<close>

definition ascii :: builtins where
  "ascii =
     \<lparr> to_lower = map (\<lambda>c. if 65 \<le> c \<and> c \<le> 90 then c + 32 else c),
       isspace = (\<lambda>c. (9 \<le> c \<and> c \<le> 13) \<or> (28 \<le> c \<and> c \<le> 32)),
       isword = (\<lambda>c. (48 \<le> c \<and> c \<le> 57) \<or> (65 \<le> c \<and> c \<le> 90) \<or> c = 95 \<or> (97 \<le> c \<and> c \<le> 122)) \<rparr>"

definition example_digest :: "str \<Rightarrow> str" where
  "example_digest content = content"

definition scenario1_a :: article where
  "scenario1_a =
     \<lparr> title = lit ''OpenAI releases GPT-5'', description = None,
       url = lit ''https://example.com/gpt5'', published_at = None, source = lit ''Wired'',
       category = lit ''ai'', image_url = None, hash = [], relevance_score = 0 \<rparr>"

definition scenario1_b :: article where
  "scenario1_b =
     \<lparr> title = lit ''OpenAI Releases GPT-5 '', description = Some (lit ''The new model is out''),
       url = lit ''https://example.com/gpt5'', published_at = Some \<lparr>wall = 5, utcoffset = None\<rparr>,
       source = lit ''TechCrunch'', category = lit ''research'',
       image_url = Some (lit ''https://example.com/i.png''), hash = [], relevance_score = 0 \<rparr>"

definition supplied_a :: article where
  "supplied_a = scenario1_a\<lparr>hash := lit ''aa''\<rparr>"

definition supplied_b :: article where
  "supplied_b = scenario1_a\<lparr>hash := lit ''bb''\<rparr>"

text \<open>
  In the examples the similarity is the normalized indel similarity of
  \<^verbatim>\<open>Levenshtein.ratio\<close>: twice the length of a longest common subsequence over the sum of
  the lengths.
\<close>

fun lcs :: "str \<Rightarrow> str \<Rightarrow> nat" where
  "lcs [] ys = 0"
| "lcs (x # xs) [] = 0"
| "lcs (x # xs) (y # ys) =
     (if x = y then Suc (lcs xs ys) else max (lcs xs (y # ys)) (lcs (x # xs) ys))"

definition example_ratio :: "str \<Rightarrow> str \<Rightarrow> real" where
  "example_ratio a b =
     (if a = [] \<and> b = [] then 1 else 2 * real (lcs a b) / real (length a + length b))"

definition example_settings :: settings where
  "example_settings =
     \<lparr> include_keywords = [lit ''robot'', lit ''AI''], exclude_keywords = [lit ''crypto''],
       max_articles = 2, min_relevance_score = 1.0, recency_weight = 2.0, max_age_days = 7,
       deduplication_enabled = True, similarity_threshold = 0.85, lookback_days = 7 \<rparr>"

definition news :: "string \<Rightarrow> string \<Rightarrow> article" where
  "news t h =
     \<lparr> title = lit t, description = None, url = lit (''https://example.com/'' @ h),
       published_at = None, source = lit ''Wired'', category = lit ''ai'', image_url = None,
       hash = lit h, relevance_score = 0 \<rparr>"

definition example_batch :: "article list" where
  "example_batch =
     [news ''Old story'' ''h0'', news ''GPT-5 out'' ''h1'', news ''gpt-5 out '' ''h1'',
      news ''GPT-5 out!'' ''h3'', news ''Robots'' ''h4'']"

definition example_self :: deduplicator where
  "example_self =
     \<lparr> self_similarity_threshold = 0.85, self_lookback_days = 7, seen_hashes = {lit ''h0''} \<rparr>"

definition empty_world :: world where
  "empty_world = \<lparr> cache = Missing, writable = True, trace = [] \<rparr>"

definition aged_world :: world where
  "aged_world =
     \<lparr> cache = Entries [lit ''old'' \<mapsto> Stamp (days 1 - 1), lit ''edge'' \<mapsto> Stamp (days 1)],
       writable = True, trace = [] \<rparr>"

definition disabled_settings :: settings where
  "disabled_settings = example_settings\<lparr>deduplication_enabled := False\<rparr>"

definition cached_world :: world where
  "cached_world = \<lparr> cache = Entries [lit ''h0'' \<mapsto> Stamp (days 9)], writable = True, trace = [] \<rparr>"

definition exact_batch :: "article list" where
  "exact_batch = [news ''GPT-5 out'' ''h1'', news ''gpt-5 out '' ''h1'']"

definition near_batch :: "article list" where
  "near_batch = [news ''GPT-5 out'' ''h1'', news ''GPT-5 out!'' ''h3'']"


text \<open>
  A small heap of articles, read ten days after the first instant a \<^verbatim>\<open>datetime\<close> holds:
  reference 0 was published 10 hours ago, reference 5 was published 36 hours ago, the others
  carry no date.
\<close>

definition story :: "string \<Rightarrow> string \<Rightarrow> datetime option \<Rightarrow> article" where
  "story t s p =
     \<lparr> title = lit t, description = None, url = lit ''https://example.com/story'',
       published_at = p, source = lit s, category = lit ''ai'', image_url = None,
       hash = lit t, relevance_score = 0 \<rparr>"

definition still_clock :: "nat \<Rightarrow> reading" where
  "still_clock n = \<lparr> local_now = 864000000000, utc_now = 864000000000 \<rparr>"

definition newsroom :: heap where
  "newsroom =
     (\<lambda>r. story ''Weather'' ''Blog'' None)
       (0 := story ''New AI robot startup raises funding'' ''TechCrunch''
               (Some \<lparr> wall = 828000000000, utcoffset = None \<rparr>),
        5 := story ''Robot news'' ''Blog'' (Some \<lparr> wall = 734400000000, utcoffset = None \<rparr>),
        3 := story ''Crypto trading bot'' ''Wired'' None)"

definition zero_settings :: settings where
  "zero_settings = example_settings\<lparr>max_articles := 0\<rparr>"

definition negative_settings :: settings where
  "negative_settings = example_settings\<lparr>max_articles := - 1\<rparr>"


definition repeated_settings :: settings where
  "repeated_settings = example_settings\<lparr>include_keywords := [lit ''AI'', lit ''AI'']\<rparr>"

definition single :: heap where
  "single = (\<lambda>r. story ''AI'' ''Blog'' None)"


section \<open>Fingerprints\<close>

lemma Article_Inr:
  "Article py md5 a = Inr A \<Longrightarrow> A = model_post_init py md5 a"
  by (auto simp: Article_def validate_url_def split: if_splits)

lemma supplied_hash_kept:
  "Article py md5 a = Inr A \<Longrightarrow> hash a \<noteq> [] \<Longrightarrow> hash A = hash a"
  by (auto simp: Article_def validate_url_def model_post_init_def split: if_splits)

text \<open>
  C2, as amended. Two articles constructed without an explicit \<open>hash\<close>, with the same
  normalized (lower-cased, trimmed) title and the same raw URL, get the same fingerprint,
  whatever their other fields hold: the fingerprint is the digest of the normalized title
  followed by the URL. (A non-empty \<open>hash\<close> given to the constructor is kept as it is:
  \<open>supplied_hash_kept\<close>.)
\<close>

theorem fingerprint_determinism:
  assumes "Article py md5 a = Inr A" and "Article py md5 b = Inr B"
    and "hash a = []" and "hash b = []"
    and "strip py (lower py (title a)) = strip py (lower py (title b))" and "url a = url b"
  shows "hash A = hash B \<and> hash A = md5 (strip py (lower py (title a)) @ url a)"
proof -
  have A: "A = model_post_init py md5 a" and B: "B = model_post_init py md5 b"
    using assms(1,2) by (simp_all add: Article_Inr)
  have "hash A = generate_hash py md5 a" "hash B = generate_hash py md5 b"
    using assms(3,4) by (simp_all add: A B model_post_init_def)
  then show ?thesis
    using assms(5,6) by (simp add: generate_hash_def)
qed

lemma scenario1_titles:
  "strip ascii (lower ascii (title scenario1_a)) = strip ascii (lower ascii (title scenario1_b))"
  unfolding scenario1_a_def scenario1_b_def by code_simp

theorem fingerprint_determinism_witness:
  "hash (projr (Article ascii example_digest scenario1_a))
     = hash (projr (Article ascii example_digest scenario1_b))
   \<and> \<not> isl (Article ascii example_digest scenario1_a)
   \<and> \<not> isl (Article ascii example_digest scenario1_b)
   \<and> description scenario1_a \<noteq> description scenario1_b"
proof -
  have a: "Article ascii example_digest scenario1_a = Inr (model_post_init ascii example_digest scenario1_a)"
    by (simp add: Article_def validate_url_def scenario1_a_def lit_def)
  have b: "Article ascii example_digest scenario1_b = Inr (model_post_init ascii example_digest scenario1_b)"
    by (simp add: Article_def validate_url_def scenario1_b_def lit_def)
  have "hash scenario1_a = []" "hash scenario1_b = []" "url scenario1_a = url scenario1_b"
    by (simp_all add: scenario1_a_def scenario1_b_def)
  from fingerprint_determinism [OF a b this(1,2) scenario1_titles this(3)]
  have "hash (model_post_init ascii example_digest scenario1_a)
      = hash (model_post_init ascii example_digest scenario1_b)"
    by simp
  moreover have "description scenario1_a \<noteq> description scenario1_b"
    by (simp add: scenario1_a_def scenario1_b_def)
  ultimately show ?thesis
    by (simp add: a b)
qed

theorem fingerprint_supplied_counterexample:
  "Article ascii example_digest supplied_a = Inr supplied_a
   \<and> Article ascii example_digest supplied_b = Inr supplied_b
   \<and> strip ascii (lower ascii (title supplied_a)) = strip ascii (lower ascii (title supplied_b))
   \<and> url supplied_a = url supplied_b
   \<and> hash supplied_a \<noteq> hash supplied_b"
  by (simp add: Article_def validate_url_def model_post_init_def supplied_a_def supplied_b_def
      scenario1_a_def lit_def)

section \<open>The single pass of the deduplicator\<close>

lemma near_duplicate_iff:
  "near_duplicate py self ratio t ts = (\<exists>s \<in> set ts. is_similar py self ratio t s)"
  by (induction ts) auto

lemma is_similar_spec:
  "is_similar py self ratio (title a) (title b)
     = spec_similar py (self_similarity_threshold self) ratio a b"
  by (simp add: is_similar_def spec_similar_def)

lemma dedup_loop_spec:
  "dedup_loop py self ratio xs (u, hash ` set u, map title u) =
     (let u' = spec_single_pass (seen_hashes self)
                 (spec_similar py (self_similarity_threshold self) ratio) u xs
      in (u', hash ` set u', map title u'))"
proof (induction xs arbitrary: u)
  case Nil
  then show ?case by simp
next
  case (Cons a xs)
  have keep: "dedup_loop py self ratio xs (u @ [a], insert (hash a) (hash ` set u), map title u @ [title a])
      = dedup_loop py self ratio xs (u @ [a], hash ` set (u @ [a]), map title (u @ [a]))"
    by simp
  have mem: "hash a \<in> hash ` set u \<longleftrightarrow> (\<exists>b \<in> set u. hash b = hash a)"
    by (metis image_iff)
  show ?case
    unfolding dedup_loop.simps spec_single_pass.simps keep Cons.IH near_duplicate_iff mem
    by (simp add: is_similar_spec Let_def)
qed




lemma deduplicate_fst:
  "deduplication_enabled st \<Longrightarrow>
   fst (deduplicate py st self ratio now xs w) =
     spec_single_pass (seen_hashes self) (spec_similar py (self_similarity_threshold self) ratio) [] xs"
  using dedup_loop_spec [of py self ratio xs "[]"]
  by (simp add: deduplicate_def Let_def)




section \<open>The cache\<close>

lemma add_hashes_apply:
  "add_hashes articles s m h = (if h \<in> hash ` set articles then Some s else m h)"
  by (induction articles arbitrary: m) auto

lemma cache_access [simp]: "cache (access e w) = cache w"
  by (simp add: access_def)

lemma writable_access [simp]: "writable (access e w) = writable w"
  by (simp add: access_def)

lemma trace_access [simp]: "trace (access e w) = trace w @ [e]"
  by (simp add: access_def)

lemma cutoff_date_Inr: "cutoff_date now lb = Inr c \<Longrightarrow> c = now - days lb"
  by (auto simp: cutoff_date_def timedelta_def datetime_sub_def split: if_splits)

lemma cutoff_date_valid:
  assumes "valid_datetime now" and "valid_datetime (now - days lb)"
  shows "cutoff_date now lb = Inr (now - days lb)"
proof -
  have "- days 3652059 < days lb" "days lb < days 3652059"
    using assms by (simp_all add: valid_datetime_def)
  then have "- 999999999 \<le> lb \<and> lb \<le> 999999999"
    by (simp add: days_def)
  then show ?thesis
    using assms(2) by (simp add: cutoff_date_def timedelta_def datetime_sub_def)
qed

lemma Deduplicator_seen:
  "seen_hashes (fst (Deduplicator st now w)) =
     (case cache w of
        Entries m \<Rightarrow>
          (case cutoff_date now (lookback_days st) of
             Inl e \<Rightarrow> {}
           | Inr cutoff \<Rightarrow> {h. \<exists>s. m h = Some s \<and> fresh cutoff s})
      | _ \<Rightarrow> {})"
  by (simp add: Deduplicator_def load_cache_def Let_def split: cache_file.splits sum.splits)

lemma Deduplicator_fields:
  "self_similarity_threshold (fst (Deduplicator st now w)) = similarity_threshold st"
  "self_lookback_days (fst (Deduplicator st now w)) = lookback_days st"
  by (simp_all add: Deduplicator_def load_cache_def Let_def split: cache_file.splits sum.splits)

lemma Deduplicator_world:
  "snd (Deduplicator st now w) =
     w\<lparr>trace := trace w @ MkDir # Exists # (if cache w = Missing then [] else [Read])\<rparr>"
  by (simp add: Deduplicator_def load_cache_def Let_def access_def split: cache_file.splits sum.splits)

lemma save_cache_written:
  assumes "load_existing (cache w) = Some m" and "\<forall>k. m k \<noteq> Some Unparsable" and "writable w"
    and "cutoff_date (snd now) (self_lookback_days self) = Inr cutoff"
  shows "cache (save_cache self now articles w) =
           Entries (prune cutoff (add_hashes articles (Stamp (fst now)) m))"
proof -
  have "\<not> (\<exists>h. add_hashes articles (Stamp (fst now)) m h = Some Unparsable)"
    using assms(2) by (simp add: add_hashes_apply)
  then show ?thesis
    using assms(1,3,4) by (cases "cache w") (auto simp: save_cache_def Let_def load_existing_def)
qed

lemma save_cache_overflow:
  assumes "cutoff_date (snd now) (self_lookback_days self) = Inl e"
  shows "cache (save_cache self now articles w) = cache w"
  using assms by (cases "cache w") (auto simp: save_cache_def Let_def load_existing_def)

text \<open>
  C4. For a cache file that holds entries, an entry with time stamp \<open>t\<close> is in the set the
  constructor loads exactly when the cutoff \<^verbatim>\<open>datetime.now() - timedelta(days=lookback_days)\<close>
  can be built and is not after \<open>t\<close>; when building it raises \<^verbatim>\<open>OverflowError\<close> the set is
  emptied. So an entry strictly older than \<open>now - lookback_days\<close> is always absent, and one
  exactly at the cutoff is kept. The prune at save time uses the same inclusive rule: where
  the old entries parse, the file can be written and the batch does not restamp the entry,
  the written file keeps it exactly when the cutoff is not after \<open>t\<close> and has no entry for it
  when it is strictly older, an entry exactly at the cutoff being kept; when the cutoff cannot
  be built, the file is left as it was.
\<close>

theorem lookback_pruning:
  assumes "cache w = Entries m" and "m h = Some (Stamp t)"
  shows "(h \<in> seen_hashes (fst (Deduplicator st now w))
            \<longleftrightarrow> (\<exists>c. cutoff_date now (lookback_days st) = Inr c \<and> c \<le> t))
       \<and> (t < now - days (lookback_days st) \<longrightarrow> h \<notin> seen_hashes (fst (Deduplicator st now w)))
       \<and> (valid_datetime now \<and> valid_datetime t \<and> t = now - days (lookback_days st) \<longrightarrow>
            h \<in> seen_hashes (fst (Deduplicator st now w)))
       \<and> ((\<forall>k. m k \<noteq> Some Unparsable) \<and> writable w \<and> h \<notin> hash ` set articles \<longrightarrow>
            (case cutoff_date now2 (self_lookback_days self) of
               Inl e \<Rightarrow> cache (save_cache self (now1, now2) articles w) = cache w
             | Inr c \<Rightarrow>
                 (\<exists>m'. cache (save_cache self (now1, now2) articles w) = Entries m'
                    \<and> (m' h = Some (Stamp t) \<longleftrightarrow> c \<le> t)
                    \<and> (m' h = None \<longleftrightarrow> t < c)))
          \<and> (valid_datetime now2 \<and> valid_datetime t \<and> t = now2 - days (self_lookback_days self) \<longrightarrow>
               (\<exists>m'. cache (save_cache self (now1, now2) articles w) = Entries m'
                  \<and> m' h = Some (Stamp t))))"
proof (intro conjI impI)
  let ?seen = "seen_hashes (fst (Deduplicator st now w))"
  show iff: "h \<in> ?seen \<longleftrightarrow> (\<exists>c. cutoff_date now (lookback_days st) = Inr c \<and> c \<le> t)"
    using assms by (simp add: Deduplicator_seen fresh_def split: sum.splits)
  show "h \<notin> ?seen" if "t < now - days (lookback_days st)"
    using that iff cutoff_date_Inr [of now "lookback_days st"] by auto
  show "h \<in> ?seen"
    if "valid_datetime now \<and> valid_datetime t \<and> t = now - days (lookback_days st)"
    using that iff cutoff_date_valid [of now "lookback_days st"] by auto
next
  assume a: "(\<forall>k. m k \<noteq> Some Unparsable) \<and> writable w \<and> h \<notin> hash ` set articles"
  have le: "load_existing (cache w) = Some m"
    using assms(1) by (simp add: load_existing_def)
  have nou: "\<forall>k. m k \<noteq> Some Unparsable" and wr: "writable w"
    using a by simp_all
  have written: "cache (save_cache self (now1, now2) articles w)
        = Entries (prune c (add_hashes articles (Stamp now1) m))"
    if "cutoff_date now2 (self_lookback_days self) = Inr c" for c
  proof -
    have "cutoff_date (snd (now1, now2)) (self_lookback_days self) = Inr c"
      using that by simp
    from save_cache_written [OF le nou wr this] show ?thesis
      by simp
  qed
  have kept: "prune c (add_hashes articles (Stamp now1) m) h = (if c \<le> t then Some (Stamp t) else None)"
    for c
    using a assms(2) by (simp add: prune_def add_hashes_apply fresh_def)
  show "case cutoff_date now2 (self_lookback_days self) of
               Inl e \<Rightarrow> cache (save_cache self (now1, now2) articles w) = cache w
             | Inr c \<Rightarrow>
                 (\<exists>m'. cache (save_cache self (now1, now2) articles w) = Entries m'
                    \<and> (m' h = Some (Stamp t) \<longleftrightarrow> c \<le> t)
                    \<and> (m' h = None \<longleftrightarrow> t < c))"
  proof (cases "cutoff_date now2 (self_lookback_days self)")
    case (Inl e)
    then show ?thesis
      using save_cache_overflow [of "(now1, now2)" self e articles w] by simp
  next
    case (Inr c)
    then show ?thesis
      using written [OF Inr] kept [of c] by auto
  qed
  show "\<exists>m'. cache (save_cache self (now1, now2) articles w) = Entries m' \<and> m' h = Some (Stamp t)"
    if "valid_datetime now2 \<and> valid_datetime t \<and> t = now2 - days (self_lookback_days self)"
  proof -
    have c: "cutoff_date now2 (self_lookback_days self) = Inr t"
      using that cutoff_date_valid [of now2 "self_lookback_days self"] by auto
    show ?thesis
      using written [OF c] kept [of t] by simp
  qed
qed


theorem lookback_pruning_witness:
  "lit ''old'' \<notin> seen_hashes (fst (Deduplicator example_settings (days 8) aged_world))
   \<and> lit ''edge'' \<in> seen_hashes (fst (Deduplicator example_settings (days 8) aged_world))
   \<and> (\<exists>m'. cache (save_cache example_self (days 8, days 8) [] aged_world) = Entries m'
          \<and> m' (lit ''edge'') = Some (Stamp (days 1)) \<and> m' (lit ''old'') = None)"
proof -
  let ?m = "[lit ''old'' \<mapsto> Stamp (days 1 - 1), lit ''edge'' \<mapsto> Stamp (days 1)]"
  have c: "cache aged_world = Entries ?m"
    by (simp add: aged_world_def)
  have old: "?m (lit ''old'') = Some (Stamp (days 1 - 1))"
    and edge: "?m (lit ''edge'') = Some (Stamp (days 1))"
    by (simp_all add: lit_def)
  have side_old: "(\<forall>k. ?m k \<noteq> Some Unparsable) \<and> writable aged_world \<and> lit ''old'' \<notin> hash ` set []"
    and side_edge: "(\<forall>k. ?m k \<noteq> Some Unparsable) \<and> writable aged_world \<and> lit ''edge'' \<notin> hash ` set []"
    by (simp_all add: aged_world_def)
  note o = lookback_pruning [OF c old, where st = example_settings and now = "days 8"
      and articles = "[]" and ?now2.0 = "days 8" and self = example_self and ?now1.0 = "days 8"]
  note e = lookback_pruning [OF c edge, where st = example_settings and now = "days 8"
      and articles = "[]" and ?now2.0 = "days 8" and self = example_self and ?now1.0 = "days 8"]
  have lb: "lookback_days example_settings = 7" "self_lookback_days example_self = 7"
    by (simp_all add: example_settings_def example_self_def)
  have cut: "cutoff_date (days 8) 7 = Inr (days 1)"
    by (simp add: cutoff_date_def timedelta_def datetime_sub_def valid_datetime_def days_def)
  have "lit ''old'' \<notin> seen_hashes (fst (Deduplicator example_settings (days 8) aged_world))"
    using o [THEN conjunct2, THEN conjunct1] by (simp add: lb days_def)
  moreover have "lit ''edge'' \<in> seen_hashes (fst (Deduplicator example_settings (days 8) aged_world))"
    using e [THEN conjunct2, THEN conjunct2, THEN conjunct1]
    by (simp add: lb days_def valid_datetime_def)
  moreover have "\<exists>m'. cache (save_cache example_self (days 8, days 8) [] aged_world) = Entries m'
          \<and> m' (lit ''edge'') = Some (Stamp (days 1)) \<and> m' (lit ''old'') = None"
  proof -
    have "\<exists>m'. cache (save_cache example_self (days 8, days 8) [] aged_world) = Entries m'
        \<and> (m' (lit ''old'') = Some (Stamp (days 1 - 1)) \<longleftrightarrow> days 1 \<le> days 1 - 1)
        \<and> (m' (lit ''old'') = None \<longleftrightarrow> days 1 - 1 < days 1)"
      using o [THEN conjunct2, THEN conjunct2, THEN conjunct2, THEN mp, OF side_old, THEN conjunct1]
      by (simp add: lb cut)
    then obtain m1 where m1: "cache (save_cache example_self (days 8, days 8) [] aged_world) = Entries m1"
      and old_gone: "m1 (lit ''old'') = None"
      by auto
    have "\<exists>m'. cache (save_cache example_self (days 8, days 8) [] aged_world) = Entries m'
        \<and> (m' (lit ''edge'') = Some (Stamp (days 1)) \<longleftrightarrow> days 1 \<le> days 1)
        \<and> (m' (lit ''edge'') = None \<longleftrightarrow> days 1 < days 1)"
      using e [THEN conjunct2, THEN conjunct2, THEN conjunct2, THEN mp, OF side_edge, THEN conjunct1]
      by (simp add: lb cut)
    then obtain m2 where m2: "cache (save_cache example_self (days 8, days 8) [] aged_world) = Entries m2"
      and "m2 (lit ''edge'') = Some (Stamp (days 1))"
      by auto
    moreover have "m2 = m1"
      using m1 m2 by simp
    ultimately show ?thesis
      using m1 old_gone by blast
  qed
  ultimately show ?thesis by blast
qed

section \<open>Deduplication switched off\<close>

text \<open>
  C8, as amended. With deduplication disabled, \<open>deduplicate\<close> returns the input batch
  unchanged and touches nothing: the cache file is neither read nor written by the call. The
  constructor does not look at the switch: it never writes the cache file, but it creates the
  cache directory, probes for the file and reads it when it exists.
\<close>

theorem disabled_returns_input:
  assumes "\<not> deduplication_enabled st"
  shows "deduplicate py st self ratio now articles w = (articles, w)
       \<and> deduplication_step py st ratio t0 now articles w = (articles, snd (Deduplicator st t0 w))
       \<and> cache (snd (Deduplicator st t0 w)) = cache w
       \<and> trace (snd (Deduplicator st t0 w))
           = trace w @ MkDir # Exists # (if cache w = Missing then [] else [Read])"
  using assms
  by (simp add: deduplicate_def deduplication_step_def Deduplicator_world split_beta)

theorem disabled_returns_input_witness:
  "deduplicate ascii disabled_settings example_self example_ratio (1, 2) example_batch cached_world
     = (example_batch, cached_world)
   \<and> trace (snd (Deduplicator disabled_settings 0 empty_world)) = [MkDir, Exists]"
proof -
  have off: "\<not> deduplication_enabled disabled_settings"
    by (simp add: disabled_settings_def)
  from disabled_returns_input [OF off, of ascii example_self example_ratio "(1, 2)" example_batch cached_world 0]
    disabled_returns_input [OF off, of ascii example_self example_ratio "(1, 2)" example_batch empty_world 0]
  show ?thesis
    by (simp add: empty_world_def)
qed

theorem disabled_constructor_reads_counterexample:
  "\<not> deduplication_enabled disabled_settings
   \<and> trace cached_world = []
   \<and> trace (snd (deduplication_step ascii disabled_settings example_ratio 0 (1, 2) example_batch cached_world))
       = [MkDir, Exists, Read]"
  by (simp add: deduplication_step_def deduplicate_def Deduplicator_world
      disabled_settings_def cached_world_def split_beta)


section \<open>Running the step twice\<close>

lemma spec_single_pass_not_cached:
  "a \<in> set (spec_single_pass c s acc xs) \<Longrightarrow> hash a \<in> c \<Longrightarrow> a \<in> set acc"
proof (induction xs arbitrary: acc)
  case Nil
  then show ?case by simp
next
  case (Cons x xs)
  show ?case
  proof (cases "hash x \<in> c \<or> (\<exists>b \<in> set acc. hash b = hash x) \<or> (\<exists>b \<in> set acc. s x b)")
    case True
    then have "spec_single_pass c s acc (x # xs) = spec_single_pass c s acc xs"
      by auto
    with Cons.prems(1) have "a \<in> set (spec_single_pass c s acc xs)"
      by (simp only:)
    then show ?thesis
      using Cons.prems(2) by (rule Cons.IH)
  next
    case False
    then have "spec_single_pass c s acc (x # xs) = spec_single_pass c s (acc @ [x]) xs"
      by auto
    with Cons.prems(1) have "a \<in> set (spec_single_pass c s (acc @ [x]) xs)"
      by (simp only:)
    then have "a \<in> set (acc @ [x])"
      using Cons.prems(2) by (rule Cons.IH)
    with False Cons.prems(2) show ?thesis
      by auto
  qed
qed

lemma spec_single_pass_all_cached:
  "\<forall>x \<in> set xs. hash x \<in> c \<Longrightarrow> spec_single_pass c s acc xs = acc"
  by (induction xs arbitrary: acc) simp_all

lemma deduplication_step_unfold:
  "deduplication_step py st ratio t0 now xs w =
     deduplicate py st (fst (Deduplicator st t0 w)) ratio now xs (snd (Deduplicator st t0 w))"
  by (simp add: deduplication_step_def split_beta)

lemma deduplicate_snd:
  "deduplication_enabled st \<Longrightarrow>
   snd (deduplicate py st d ratio now xs w)
     = save_cache d now (fst (deduplicate py st d ratio now xs w)) w"
  by (simp add: deduplicate_def Let_def)

lemma deduplication_step_fst:
  "deduplication_enabled st \<Longrightarrow>
   fst (deduplication_step py st ratio t0 now xs w) =
     spec_single_pass (seen_hashes (fst (Deduplicator st t0 w)))
       (spec_similar py (similarity_threshold st) ratio) [] xs"
  by (simp only: deduplication_step_unfold deduplicate_fst Deduplicator_fields)

lemma deduplication_step_cache:
  assumes "deduplication_enabled st" and "load_existing (cache w) = Some m"
    and "\<forall>k. m k \<noteq> Some Unparsable" and "writable w"
    and "cutoff_date (snd now) (lookback_days st) = Inr cutoff"
  shows "cache (snd (deduplication_step py st ratio t0 now xs w)) =
           Entries (prune cutoff
                      (add_hashes (fst (deduplication_step py st ratio t0 now xs w)) (Stamp (fst now)) m))"
proof -
  let ?d = "fst (Deduplicator st t0 w)" and ?w = "snd (Deduplicator st t0 w)"
  have le: "load_existing (cache ?w) = Some m" and wr: "writable ?w"
    using assms(2,4) by (simp_all add: Deduplicator_world)
  have cut: "cutoff_date (snd now) (self_lookback_days ?d) = Inr cutoff"
    using assms(5) by (simp only: Deduplicator_fields)
  have "snd (deduplication_step py st ratio t0 now xs w)
      = save_cache ?d now (fst (deduplication_step py st ratio t0 now xs w)) ?w"
    by (simp only: deduplication_step_unfold deduplicate_snd [OF assms(1)])
  then show ?thesis
    by (simp only: save_cache_written [OF le assms(3) wr cut])
qed

lemma deduplication_step_overflow:
  assumes "deduplication_enabled st" and "cutoff_date (snd now) (lookback_days st) = Inl e"
  shows "cache (snd (deduplication_step py st ratio t0 now xs w)) = cache w"
proof -
  let ?d = "fst (Deduplicator st t0 w)" and ?w = "snd (Deduplicator st t0 w)"
  have cut: "cutoff_date (snd now) (self_lookback_days ?d) = Inl e"
    using assms(2) by (simp only: Deduplicator_fields)
  have "snd (deduplication_step py st ratio t0 now xs w)
      = save_cache ?d now (fst (deduplication_step py st ratio t0 now xs w)) ?w"
    by (simp only: deduplication_step_unfold deduplicate_snd [OF assms(1)])
  then show ?thesis
    by (simp add: save_cache_overflow [OF cut] Deduplicator_world)
qed

text \<open>
  C3, as amended. Run the deduplication step twice on the same batch, the second run loading
  the cache the first one wrote: the first save goes through (the old file, if any, decodes to
  entries whose stamps parse, and the file can be written), the cutoff of the first save and
  the cutoff of the second load are representable dates (neither
  \<^verbatim>\<open>datetime.now() - timedelta(days=lookback_days)\<close> raises \<^verbatim>\<open>OverflowError\<close>), and the stamp of
  the first save is not before either cutoff. Then no article of the second result has the
  fingerprint of an article the first run accepted; and the second result is empty when every
  article of the batch has the fingerprint of an article accepted by the first run. Articles
  the first run dropped as near-duplicates are not cached.
\<close>

theorem rerun_drops_accepted:
  assumes enabled: "deduplication_enabled st"
    and existing: "load_existing (cache w) = Some m" "\<forall>k. m k \<noteq> Some Unparsable"
    and wr: "writable w"
    and save: "cutoff_date now2 (lookback_days st) = Inr c2" "c2 \<le> now1"
    and load: "cutoff_date t3 (lookback_days st) = Inr c3" "c3 \<le> now1"
    and first: "deduplication_step py st ratio t0 (now1, now2) batch w = (out1, w1)"
    and second: "deduplication_step py st ratio t3 now' batch w1 = (out2, w2)"
  shows "(\<forall>a \<in> set out2. hash a \<notin> hash ` set out1)
       \<and> (hash ` set batch \<subseteq> hash ` set out1 \<longrightarrow> out2 = [])"
proof -
  let ?m' = "prune c2 (add_hashes out1 (Stamp now1) m)"
  have cut: "cutoff_date (snd (now1, now2)) (lookback_days st) = Inr c2"
    using save(1) by simp
  have c1: "cache w1 = Entries ?m'"
    using deduplication_step_cache [OF enabled existing wr cut, of py ratio t0 batch] first
    by simp
  have seen: "hash ` set out1 \<subseteq> seen_hashes (fst (Deduplicator st t3 w1))"
  proof
    fix h assume "h \<in> hash ` set out1"
    then have "?m' h = Some (Stamp now1)"
      using save(2) by (simp add: prune_def add_hashes_apply fresh_def)
    then show "h \<in> seen_hashes (fst (Deduplicator st t3 w1))"
      using load by (simp add: Deduplicator_seen c1 fresh_def)
  qed
  have out2: "out2 = spec_single_pass (seen_hashes (fst (Deduplicator st t3 w1)))
       (spec_similar py (similarity_threshold st) ratio) [] batch"
    using deduplication_step_fst [OF enabled, of py ratio t3 now' batch w1] second by simp
  have "hash a \<notin> hash ` set out1" if "a \<in> set out2" for a
  proof
    assume "hash a \<in> hash ` set out1"
    then have "hash a \<in> seen_hashes (fst (Deduplicator st t3 w1))"
      using seen by blast
    then have "a \<in> set []"
      using that unfolding out2 by (rule spec_single_pass_not_cached [rotated])
    then show False by simp
  qed
  moreover have "out2 = []" if "hash ` set batch \<subseteq> hash ` set out1"
    unfolding out2 using that seen by (intro spec_single_pass_all_cached) blast
  ultimately show ?thesis by blast
qed

lemma exact_batch_first:
  "spec_single_pass {} (spec_similar ascii (similarity_threshold example_settings) example_ratio) []
     exact_batch
     = [news ''GPT-5 out'' ''h1'']"
  by code_simp

lemma empty_world_seen: "seen_hashes (fst (Deduplicator st t0 empty_world)) = {}"
  by (simp add: Deduplicator_seen empty_world_def)

lemma example_cutoff:
  "cutoff_date (days 10 + 2) (lookback_days example_settings) = Inr (days 3 + 2)"
  "cutoff_date (days 10 + 3) (lookback_days example_settings) = Inr (days 3 + 3)"
  by (simp_all add: cutoff_date_def timedelta_def datetime_sub_def valid_datetime_def days_def
      example_settings_def)

theorem rerun_drops_accepted_witness:
  "fst (deduplication_step ascii example_settings example_ratio (days 10) (days 10 + 1, days 10 + 2)
          exact_batch empty_world)
     = [news ''GPT-5 out'' ''h1'']
   \<and> fst (deduplication_step ascii example_settings example_ratio (days 10 + 3)
            (days 10 + 4, days 10 + 5) exact_batch
            (snd (deduplication_step ascii example_settings example_ratio (days 10)
                    (days 10 + 1, days 10 + 2) exact_batch empty_world)))
     = []"
proof -
  let ?r1 = "deduplication_step ascii example_settings example_ratio (days 10)
               (days 10 + 1, days 10 + 2) exact_batch empty_world"
  let ?r2 = "deduplication_step ascii example_settings example_ratio (days 10 + 3)
               (days 10 + 4, days 10 + 5) exact_batch (snd ?r1)"
  have en: "deduplication_enabled example_settings"
    by (simp add: example_settings_def)
  have out1: "fst ?r1 = [news ''GPT-5 out'' ''h1'']"
    by (simp add: deduplication_step_fst [OF en] empty_world_seen exact_batch_first)
  have ex: "load_existing (cache empty_world) = Some Map.empty" "\<forall>k. Map.empty k \<noteq> Some Unparsable"
    and wr: "writable empty_world"
    by (simp_all add: empty_world_def load_existing_def)
  have le: "days 3 + 2 \<le> days 10 + 1" "days 3 + 3 \<le> days 10 + 1"
    by (simp_all add: days_def)
  have first: "?r1 = ([news ''GPT-5 out'' ''h1''], snd ?r1)"
    using out1 by (simp add: prod_eq_iff)
  have second: "?r2 = (fst ?r2, snd ?r2)"
    by simp
  have sub: "hash ` set exact_batch \<subseteq> hash ` set [news ''GPT-5 out'' ''h1'']"
    by (simp add: exact_batch_def news_def)
  from rerun_drops_accepted [OF en ex wr example_cutoff(1) le(1) example_cutoff(2) le(2) first second,
      THEN conjunct2, THEN mp, OF sub]
  show ?thesis
    using out1 by simp
qed

text \<open>
  A batch of two near-duplicates with different fingerprints: the first run accepts the first
  and drops the second; the second run drops the first as cached and accepts the second.
\<close>

lemma near_batch_first:
  "spec_single_pass {} (spec_similar ascii (similarity_threshold example_settings) example_ratio) []
     near_batch
     = [news ''GPT-5 out'' ''h1'']"
  by code_simp

lemma near_batch_second:
  "spec_single_pass {lit ''h1''}
     (spec_similar ascii (similarity_threshold example_settings) example_ratio) [] near_batch
     = [news ''GPT-5 out!'' ''h3'']"
  by code_simp

theorem rerun_not_empty_counterexample:
  "fst (deduplication_step ascii example_settings example_ratio (days 10) (days 10 + 1, days 10 + 2)
          near_batch empty_world)
     = [news ''GPT-5 out'' ''h1'']
   \<and> fst (deduplication_step ascii example_settings example_ratio (days 10 + 3)
            (days 10 + 4, days 10 + 5) near_batch
            (snd (deduplication_step ascii example_settings example_ratio (days 10)
                    (days 10 + 1, days 10 + 2) near_batch empty_world)))
     = [news ''GPT-5 out!'' ''h3'']"
proof -
  let ?r1 = "deduplication_step ascii example_settings example_ratio (days 10)
               (days 10 + 1, days 10 + 2) near_batch empty_world"
  have en: "deduplication_enabled example_settings"
    by (simp add: example_settings_def)
  have out1: "fst ?r1 = [news ''GPT-5 out'' ''h1'']"
    by (simp add: deduplication_step_fst [OF en] empty_world_seen near_batch_first)
  have ex: "load_existing (cache empty_world) = Some Map.empty" "\<forall>k. Map.empty k \<noteq> Some Unparsable"
    and wr: "writable empty_world"
    by (simp_all add: empty_world_def load_existing_def)
  have cut: "cutoff_date (snd (days 10 + 1, days 10 + 2)) (lookback_days example_settings)
      = Inr (days 3 + 2)"
    using example_cutoff(1) by simp
  have c1: "cache (snd ?r1) = Entries (prune (days 3 + 2) [lit ''h1'' \<mapsto> Stamp (days 10 + 1)])"
    using deduplication_step_cache [OF en ex wr cut, of ascii example_ratio "days 10" near_batch]
    by (simp add: out1 news_def)
  have "seen_hashes (fst (Deduplicator example_settings (days 10 + 3) (snd ?r1)))
      = {h. \<exists>s. prune (days 3 + 2) [lit ''h1'' \<mapsto> Stamp (days 10 + 1)] h = Some s
              \<and> fresh (days 3 + 3) s}"
    by (simp only: Deduplicator_seen c1 example_cutoff cache_file.case sum.case)
  also have "\<dots> = {lit ''h1''}"
    by (auto simp: prune_def fresh_def days_def split: if_splits)
  finally have "seen_hashes (fst (Deduplicator example_settings (days 10 + 3) (snd ?r1)))
      = {lit ''h1''}" .
  then have "fst (deduplication_step ascii example_settings example_ratio (days 10 + 3)
        (days 10 + 4, days 10 + 5) near_batch (snd ?r1))
      = [news ''GPT-5 out!'' ''h3'']"
    by (simp only: deduplication_step_fst [OF en] near_batch_second)
  with out1 show ?thesis
    by (rule conjI)
qed

section \<open>Whole-word matching and the exclusion filter\<close>

lemma word_boundary_append:
  "word_boundary py (xs @ ys) (length xs) =
     ((xs \<noteq> [] \<and> isword py (last xs)) \<noteq> (ys \<noteq> [] \<and> isword py (hd ys)))"
proof -
  have a: "(0 < length xs \<and> isword py ((xs @ ys) ! (length xs - 1)))
      = (xs \<noteq> [] \<and> isword py (last xs))"
    by (cases xs rule: rev_cases) (simp_all add: nth_append)
  have b: "(length xs < length (xs @ ys) \<and> isword py ((xs @ ys) ! length xs))
      = (ys \<noteq> [] \<and> isword py (hd ys))"
    by (cases ys) (simp_all add: nth_append)
  show ?thesis
    unfolding word_boundary_def a b ..
qed

lemma re_search_word_split:
  "re_search_word py k s \<longleftrightarrow>
     (\<exists>before after. s = before @ k @ after
        \<and> word_boundary py s (length before) \<and> word_boundary py s (length before + length k))"
proof
  assume "re_search_word py k s"
  then have "\<exists>i \<in> set [0..<Suc (length s)]. take (length k) (drop i s) = k
      \<and> word_boundary py s i \<and> word_boundary py s (i + length k)"
    unfolding re_search_word_def list_ex_iff .
  then obtain i where "i \<in> set [0..<Suc (length s)]" and i2: "take (length k) (drop i s) = k"
    "word_boundary py s i" "word_boundary py s (i + length k)"
    by blast
  then have i: "i \<le> length s" "take (length k) (drop i s) = k"
    "word_boundary py s i" "word_boundary py s (i + length k)"
    by auto
  have "s = take i s @ take (length k) (drop i s) @ drop (length k) (drop i s)"
    by (simp only: append_take_drop_id)
  then have "s = take i s @ k @ drop (length k) (drop i s)"
    using i(2) by simp
  moreover have "length (take i s) = i"
    using i(1) by simp
  ultimately show "\<exists>before after. s = before @ k @ after
        \<and> word_boundary py s (length before) \<and> word_boundary py s (length before + length k)"
    using i(3,4) by metis
next
  assume "\<exists>before after. s = before @ k @ after
        \<and> word_boundary py s (length before) \<and> word_boundary py s (length before + length k)"
  then obtain before after where s: "s = before @ k @ after"
    and b: "word_boundary py s (length before)" "word_boundary py s (length before + length k)"
    by blast
  have "length before \<le> length s" "take (length k) (drop (length before) s) = k"
    by (simp_all add: s)
  with b show "re_search_word py k s"
    unfolding re_search_word_def list_ex_iff by (auto intro!: bexI [of _ "length before"])
qed

lemma re_search_word_whole:
  assumes "word_edges py k"
  shows "re_search_word py k s \<longleftrightarrow> whole_word_in py k s"
proof -
  have k: "k \<noteq> []" "isword py (hd k)" "isword py (last k)"
    using assms by (simp_all add: word_edges_def)
  have "(word_boundary py (before @ k @ after) (length before)
         \<and> word_boundary py (before @ k @ after) (length before + length k))
      \<longleftrightarrow> ((before = [] \<or> \<not> isword py (last before))
         \<and> (after = [] \<or> \<not> isword py (hd after)))" for before after
  proof -
    have 1: "word_boundary py (before @ k @ after) (length before)
        \<longleftrightarrow> (before = [] \<or> \<not> isword py (last before))"
      using k by (auto simp: word_boundary_append)
    have "word_boundary py ((before @ k) @ after) (length (before @ k))
        \<longleftrightarrow> (after = [] \<or> \<not> isword py (hd after))"
      using k unfolding word_boundary_append by auto
    then have 2: "word_boundary py (before @ k @ after) (length before + length k)
        \<longleftrightarrow> (after = [] \<or> \<not> isword py (hd after))"
      by simp
    show ?thesis
      unfolding 1 2 ..
  qed
  then show ?thesis
    unfolding re_search_word_split whole_word_in_def by metis
qed









section \<open>Scoring\<close>

lemma calculate_relevance_score_ignores_score [simp]:
  "calculate_relevance_score py st self clk (a\<lparr>relevance_score := x\<rparr>)
     = calculate_relevance_score py st self clk a"
  by (simp add: calculate_relevance_score_def get_recency_boost_def)

lemma score_loop_result:
  "\<exists>x. score_loop py st self clock j rs h r = (h r)\<lparr>relevance_score := x\<rparr>
      \<and> (r \<in> set rs \<longrightarrow>
           (\<exists>i < length rs. rs ! i = r
               \<and> x = calculate_relevance_score py st self (clock (Suc (j + i))) (h r)))
      \<and> (r \<notin> set rs \<longrightarrow> x = relevance_score (h r))"
proof (induction rs arbitrary: h j)
  case Nil
  show ?case
    by (rule exI [of _ "relevance_score (h r)"]) simp
next
  case (Cons a rs)
  let ?h1 = "h(a := (h a)\<lparr>relevance_score :=
                        calculate_relevance_score py st self (clock (Suc j)) (h a)\<rparr>)"
  obtain x where x: "score_loop py st self clock (Suc j) rs ?h1 r = (?h1 r)\<lparr>relevance_score := x\<rparr>"
    and x_in: "r \<in> set rs \<Longrightarrow>
       \<exists>i < length rs. rs ! i = r
          \<and> x = calculate_relevance_score py st self (clock (Suc (Suc j + i))) (?h1 r)"
    and x_out: "r \<notin> set rs \<Longrightarrow> x = relevance_score (?h1 r)"
    using Cons.IH [of "Suc j" ?h1] by blast
  have same: "(?h1 r)\<lparr>relevance_score := x\<rparr> = (h r)\<lparr>relevance_score := x\<rparr>"
    by simp
  have calc: "calculate_relevance_score py st self c (?h1 r)
      = calculate_relevance_score py st self c (h r)" for c
    by simp
  have 1: "score_loop py st self clock j (a # rs) h r = (h r)\<lparr>relevance_score := x\<rparr>"
    using x same by simp
  have 2: "\<exists>i < length (a # rs). (a # rs) ! i = r
      \<and> x = calculate_relevance_score py st self (clock (Suc (j + i))) (h r)" if "r \<in> set (a # rs)"
  proof (cases "r \<in> set rs")
    case True
    then obtain i where "i < length rs" "rs ! i = r"
      "x = calculate_relevance_score py st self (clock (Suc (Suc j + i))) (h r)"
      using x_in calc by auto
    then show ?thesis
      by (intro exI [of _ "Suc i"]) simp
  next
    case False
    with that have "r = a" by simp
    then have "x = calculate_relevance_score py st self (clock (Suc j)) (h r)"
      using x_out [OF False] by simp
    then show ?thesis
      using \<open>r = a\<close> by (intro exI [of _ 0]) simp
  qed
  have 3: "x = relevance_score (h r)" if "r \<notin> set (a # rs)"
    using that x_out by simp
  show ?case
    using 1 2 3 by blast
qed

lemma timedelta_days:
  "- 999999999 \<le> n \<and> n \<le> 999999999 \<Longrightarrow> timedelta n = Inr (days n)"
  "\<not> (- 999999999 \<le> n \<and> n \<le> 999999999) \<Longrightarrow> timedelta n = Inl OverflowError"
  by (simp_all add: timedelta_def)

lemma filter_and_rank_unfold:
  assumes "- 999999999 \<le> max_age_days st \<and> max_age_days st \<le> 999999999"
  shows "filter_and_rank py st self clock h articles =
     (let recent = survivors py st self clock h articles;
          h' = score_loop py st self clock 0 recent h;
          scored = filter (\<lambda>r. min_score self \<le> relevance_score (h' r)) recent;
          top = slice_to (sorted_desc h' scored) (self_max_articles self)
      in if scored \<noteq> [] \<and> top = [] then (Inl IndexError, h') else (Inr top, h'))"
proof -
  define filtered where "filtered = filter (\<lambda>r. \<not> should_exclude py self (h r)) articles"
  define recent where
    "recent = filter (\<lambda>r. is_recent (days (max_age_days st)) (clock 0) (h r)) filtered"
  define h' where "h' = score_loop py st self clock 0 recent h"
  define scored where "scored = filter (\<lambda>r. min_score self \<le> relevance_score (h' r)) recent"
  define top where "top = slice_to (sorted_desc h' scored) (self_max_articles self)"
  have s: "survivors py st self clock h articles = recent"
    by (simp only: survivors_def recent_def filtered_def)
  have f: "filter_and_rank py st self clock h articles =
     (if filtered = [] then (Inr [], h)
      else if recent = [] then (Inr [], h)
      else if scored = [] then (Inr [], h')
      else if top = [] then (Inl IndexError, h')
      else (Inr top, h'))"
    unfolding filter_and_rank_def timedelta_days(1) [OF assms] sum.case
      filtered_def recent_def h'_def scored_def top_def Let_def ..
  have e1: "recent = []" if "filtered = []"
    using that by (simp only: recent_def filter.simps)
  have e2: "h' = h" "scored = []" if "recent = []"
    using that by (simp_all only: h'_def scored_def score_loop.simps filter.simps)
  have e3: "top = []" if "scored = []"
    using that by (simp add: top_def sorted_desc_def slice_to_def)
  have "filter_and_rank py st self clock h articles =
     (if scored \<noteq> [] \<and> top = [] then (Inl IndexError, h') else (Inr top, h'))"
    unfolding f using e1 e2 e3
    by (cases "filtered = []"; cases "recent = []"; cases "scored = []") simp_all
  then show ?thesis
    unfolding s Let_def h'_def [symmetric] scored_def [symmetric] top_def [symmetric] .
qed

lemma filter_and_rank_overflow:
  assumes "\<not> (- 999999999 \<le> max_age_days st \<and> max_age_days st \<le> 999999999)"
  shows "filter_and_rank py st self clock h articles =
     (if filter (\<lambda>r. \<not> should_exclude py self (h r)) articles = [] then (Inr [], h)
      else (Inl OverflowError, h))"
  unfolding filter_and_rank_def timedelta_days(2) [OF assms] sum.case Let_def ..

lemma filter_and_rank_heap:
  assumes "- 999999999 \<le> max_age_days st \<and> max_age_days st \<le> 999999999"
  shows "snd (filter_and_rank py st self clock h articles)
     = score_loop py st self clock 0 (survivors py st self clock h articles) h"
  unfolding filter_and_rank_unfold [OF assms] Let_def
  by (simp only: snd_conv if_distrib [of snd] if_cancel)

lemma filter_and_rank_returns:
  assumes "fst (filter_and_rank py st self clock h articles) = Inr out"
  shows "filter_and_rank py st self clock h articles =
     (let recent = survivors py st self clock h articles;
          h' = score_loop py st self clock 0 recent h;
          scored = filter (\<lambda>r. min_score self \<le> relevance_score (h' r)) recent;
          top = slice_to (sorted_desc h' scored) (self_max_articles self)
      in if scored \<noteq> [] \<and> top = [] then (Inl IndexError, h') else (Inr top, h'))"
proof (cases "- 999999999 \<le> max_age_days st \<and> max_age_days st \<le> 999999999")
  case True
  then show ?thesis
    by (rule filter_and_rank_unfold)
next
  case False
  have none: "filter (\<lambda>r. \<not> should_exclude py self (h r)) articles = []"
    using assms unfolding filter_and_rank_overflow [OF False] by (simp split: if_splits)
  then have "survivors py st self clock h articles = []"
    by (simp add: survivors_def)
  then show ?thesis
    unfolding filter_and_rank_overflow [OF False]
    by (simp add: none sorted_desc_def slice_to_def)
qed

lemma keyword_loop_count:
  "keyword_loop py ks t acc = acc + real (length (filter (\<lambda>k. re_search_word py k t) ks))"
  by (induction ks arbitrary: acc) simp_all

lemma re_search_word_empty: "\<not> re_search_word py k []"
  by (simp add: re_search_word_def word_boundary_def)

lemma calculate_keyword_score_count:
  "calculate_keyword_score py (ArticleFilter py st) s
     = real (length (filter (\<lambda>k. re_search_word py (lower py k) (lower py s)) (include_keywords st)))"
proof (cases "s = []")
  case True
  then show ?thesis
    by (simp add: calculate_keyword_score_def lower_def re_search_word_empty)
next
  case False
  then show ?thesis
    by (simp add: calculate_keyword_score_def ArticleFilter_def keyword_loop_count filter_map comp_def)
qed

lemma keyword_count_spec:
  assumes "distinct ks" and "\<forall>k \<in> set ks. word_edges py (lower py k)"
  shows "length (filter (\<lambda>k. re_search_word py (lower py k) (lower py s)) ks)
     = spec_keyword_count py ks s"
proof -
  let ?P = "\<lambda>k. re_search_word py (lower py k) (lower py s)"
  have "distinct (filter ?P ks)"
    using assms(1) by (rule distinct_filter)
  then have "length (filter ?P ks) = card (set (filter ?P ks))"
    by (rule distinct_card [symmetric])
  also have "set (filter ?P ks) = {k \<in> set ks. whole_word_in py (lower py k) (lower py s)}"
    using assms(2) by (auto simp: re_search_word_whole)
  finally show ?thesis
    by (simp add: spec_keyword_count_def)
qed

lemma calculate_keyword_score_nonneg: "0 \<le> calculate_keyword_score py (ArticleFilter py st) s"
  by (simp add: calculate_keyword_score_count)

lemma reputation_loop_default:
  "\<forall>kv \<in> set tbl. \<not> sublist (fst kv) s \<Longrightarrow> reputation_loop tbl s = 0.5"
  by (induction tbl) auto

lemma reputation_loop_match:
  "\<exists>kv \<in> set tbl. sublist (fst kv) s \<Longrightarrow>
   \<exists>kv \<in> set tbl. sublist (fst kv) s \<and> reputation_loop tbl s = snd kv"
proof (induction tbl)
  case Nil
  then show ?case by simp
next
  case (Cons e tbl)
  obtain key v where e: "e = (key, v)"
    by (cases e)
  show ?case
  proof (cases "sublist key s")
    case True
    then show ?thesis
      by (simp add: e)
  next
    case False
    with Cons.prems have "\<exists>kv \<in> set tbl. sublist (fst kv) s"
      by (simp add: e)
    from Cons.IH [OF this] False show ?thesis
      by (simp add: e)
  qed
qed

lemma reputation_loop_bounds:
  "\<forall>(key, v) \<in> set tbl. 0.5 \<le> v \<and> v \<le> 2 \<Longrightarrow>
   0.5 \<le> reputation_loop tbl s \<and> reputation_loop tbl s \<le> 2"
  by (induction tbl) auto

lemma reputation_bounds:
  "0.5 \<le> get_source_reputation_score py (ArticleFilter py st) src
   \<and> get_source_reputation_score py (ArticleFilter py st) src \<le> 2"
  unfolding get_source_reputation_score_def
  by (rule reputation_loop_bounds) (simp add: ArticleFilter_def)

lemma get_recency_boost_spec:
  "get_recency_boost st clk a
     = spec_recency_multiplier (recency_weight st) (map_option (age_hours clk) (published_at a))"
  by (simp add: get_recency_boost_def spec_recency_multiplier_def split: option.splits)

lemma get_recency_boost_nonneg:
  "0 \<le> recency_weight st \<Longrightarrow> 0 \<le> get_recency_boost st clk a"
  by (auto simp: get_recency_boost_def field_simps split: option.splits)

lemma calculate_relevance_score_formula:
  "calculate_relevance_score py st self clk a =
     (calculate_keyword_score py self (title a) * 3.0
      + calculate_keyword_score py self (case description a of None \<Rightarrow> [] | Some d \<Rightarrow> d) * 1.0
      + get_source_reputation_score py self (source a))
     * get_recency_boost st clk a"
  by (simp add: calculate_relevance_score_def Let_def)

lemma calculate_relevance_score_nonneg:
  assumes "0 \<le> recency_weight st"
  shows "0 \<le> calculate_relevance_score py st (ArticleFilter py st) clk a"
proof -
  have "0 \<le> calculate_keyword_score py (ArticleFilter py st) (title a) * 3.0
      + calculate_keyword_score py (ArticleFilter py st)
          (case description a of None \<Rightarrow> [] | Some d \<Rightarrow> d) * 1.0
      + get_source_reputation_score py (ArticleFilter py st) (source a)"
    using calculate_keyword_score_nonneg [of py st "title a"]
      calculate_keyword_score_nonneg [of py st "case description a of None \<Rightarrow> [] | Some d \<Rightarrow> d"]
      reputation_bounds [of py st "source a"]
    by simp
  then show ?thesis
    unfolding calculate_relevance_score_formula
    using get_recency_boost_nonneg [OF assms] by (rule mult_nonneg_nonneg)
qed

lemma score_loop_member:
  assumes "r \<in> set rs"
  shows "\<exists>i. relevance_score (score_loop py st self clock 0 rs h r)
              = calculate_relevance_score py st self (clock (Suc i)) (h r)"
proof -
  obtain x where x: "score_loop py st self clock 0 rs h r = (h r)\<lparr>relevance_score := x\<rparr>"
    and "\<exists>i < length rs. rs ! i = r
        \<and> x = calculate_relevance_score py st self (clock (Suc (0 + i))) (h r)"
    using score_loop_result [of py st self clock 0 rs h r] assms by blast
  then show ?thesis
    by (auto simp: x)
qed

lemma survivors_score:
  assumes "- 999999999 \<le> max_age_days st \<and> max_age_days st \<le> 999999999"
    and "r \<in> set (survivors py st self clock h articles)"
  shows "\<exists>i. relevance_score (snd (filter_and_rank py st self clock h articles) r)
              = calculate_relevance_score py st self (clock (Suc i)) (h r)"
  unfolding filter_and_rank_heap [OF assms(1)] using assms(2) by (rule score_loop_member)

lemma newsroom_run:
  "fst (filter_and_rank ascii example_settings (ArticleFilter ascii example_settings) still_clock
          newsroom [5, 0, 2, 3])
     = Inr [0, 5]"
  by code_simp

lemma newsroom_scores:
  "relevance_score (snd (filter_and_rank ascii example_settings (ArticleFilter ascii example_settings)
     still_clock newsroom [5, 0, 2, 3]) 0) = 14"
  by code_simp

lemma zero_run:
  "fst (filter_and_rank ascii zero_settings (ArticleFilter ascii zero_settings) still_clock newsroom [0])
     = Inl IndexError"
  by code_simp

lemma negative_run:
  "fst (filter_and_rank ascii negative_settings (ArticleFilter ascii negative_settings) still_clock
          newsroom [5, 0])
     = Inr [0]"
  by code_simp




lemma example_survivors:
  "survivors ascii example_settings (ArticleFilter ascii example_settings) still_clock newsroom
     [5, 0, 2, 3]
     = [5, 0, 2]"
  by code_simp

lemma repeated_score:
  "relevance_score (snd (filter_and_rank ascii repeated_settings (ArticleFilter ascii repeated_settings)
     still_clock single [0]) 0) = 6.5"
  by code_simp








text \<open>
  C5, as amended. Where \<^verbatim>\<open>timedelta(days=max_age_days)\<close> can be built (\<open>max_age_days\<close> of at
  most 999999999 in magnitude), the score stored on an article that passes the exclusion and
  recency tests is
  \<open>(title_score * 3.0 + description_score * 1.0 + reputation_score) * recency_multiplier\<close>,
  where each of the two keyword scores is the number of entries of the configured
  include-keyword list whose lower-cased form is found in the lower-cased text by the pattern
  \<^verbatim>\<open>\b\<close> keyword \<^verbatim>\<open>\b\<close>, an entry listed twice counting twice; when the configured
  include-keywords are pairwise distinct and the lower-cased form of each begins and ends with
  a word character, this is the number of distinct configured keywords whose lower-cased form
  occurs in the lower-cased text as a whole word. The reputation is the score of a table key
  contained in the lower-cased source name, or 0.5 when there is none, and lies in
  \<open>[0.5, 2.0]\<close>, and the multiplier is the full weight up to 24 hours of age,
  \<open>1.0 + (weight - 1.0) * 0.5\<close> up to 48 hours, and 1.0 for older or undated articles.
\<close>

theorem stored_score_formula:
  assumes "- 999999999 \<le> max_age_days st \<and> max_age_days st \<le> 999999999"
    and "r \<in> set (survivors py st (ArticleFilter py st) clock h articles)"
  shows "\<exists>i title_score description_score reputation_score recency_multiplier.
           relevance_score (snd (filter_and_rank py st (ArticleFilter py st) clock h articles) r)
             = (title_score * 3.0 + description_score * 1.0 + reputation_score) * recency_multiplier
         \<and> title_score
             = real (length (filter (\<lambda>k. re_search_word py (lower py k) (lower py (title (h r))))
                               (include_keywords st)))
         \<and> description_score
             = real (length (filter (\<lambda>k. re_search_word py (lower py k)
                                          (lower py (case description (h r) of
                                                       None \<Rightarrow> [] | Some d \<Rightarrow> d)))
                               (include_keywords st)))
         \<and> (distinct (include_keywords st)
              \<and> (\<forall>k \<in> set (include_keywords st). word_edges py (lower py k)) \<longrightarrow>
              title_score = real (spec_keyword_count py (include_keywords st) (title (h r)))
              \<and> description_score
                  = real (spec_keyword_count py (include_keywords st)
                            (case description (h r) of None \<Rightarrow> [] | Some d \<Rightarrow> d)))
         \<and> 0.5 \<le> reputation_score \<and> reputation_score \<le> 2.0
         \<and> (if \<exists>kv \<in> set (source_reputation (ArticleFilter py st)).
                  sublist (fst kv) (lower py (source (h r)))
             then \<exists>kv \<in> set (source_reputation (ArticleFilter py st)).
                    sublist (fst kv) (lower py (source (h r))) \<and> reputation_score = snd kv
             else reputation_score = 0.5)
         \<and> recency_multiplier
             = spec_recency_multiplier (recency_weight st)
                 (map_option (age_hours (clock (Suc i))) (published_at (h r)))"
proof -
  let ?self = "ArticleFilter py st"
  let ?d = "case description (h r) of None \<Rightarrow> [] | Some d \<Rightarrow> d"
  let ?count = "\<lambda>s. length (filter (\<lambda>k. re_search_word py (lower py k) (lower py s))
                                (include_keywords st))"
  obtain i where i: "relevance_score (snd (filter_and_rank py st ?self clock h articles) r)
      = calculate_relevance_score py st ?self (clock (Suc i)) (h r)"
    using survivors_score [OF assms] by blast
  let ?rep = "get_source_reputation_score py ?self (source (h r))"
  have rep: "if \<exists>kv \<in> set (source_reputation ?self). sublist (fst kv) (lower py (source (h r)))
             then \<exists>kv \<in> set (source_reputation ?self).
                    sublist (fst kv) (lower py (source (h r))) \<and> ?rep = snd kv
             else ?rep = 0.5"
    using reputation_loop_match [of "source_reputation ?self" "lower py (source (h r))"]
      reputation_loop_default [of "source_reputation ?self" "lower py (source (h r))"]
    unfolding get_source_reputation_score_def by (simp split: if_splits)
  have eq: "relevance_score (snd (filter_and_rank py st ?self clock h articles) r)
      = (real (?count (title (h r))) * 3.0 + real (?count ?d) * 1.0 + ?rep)
        * spec_recency_multiplier (recency_weight st)
            (map_option (age_hours (clock (Suc i))) (published_at (h r)))"
    unfolding i calculate_relevance_score_formula calculate_keyword_score_count
      get_recency_boost_spec ..
  have special: "distinct (include_keywords st)
        \<and> (\<forall>k \<in> set (include_keywords st). word_edges py (lower py k)) \<longrightarrow>
      real (?count (title (h r))) = real (spec_keyword_count py (include_keywords st) (title (h r)))
      \<and> real (?count ?d) = real (spec_keyword_count py (include_keywords st) ?d)"
    by (simp add: keyword_count_spec)
  have lo: "0.5 \<le> ?rep" and hi: "?rep \<le> 2.0"
    using reputation_bounds [of py st "source (h r)"] by simp_all
  show ?thesis
    by (intro exI conjI, rule eq, rule refl, rule refl, rule special, rule lo, rule hi, rule rep,
        rule refl)
qed

theorem stored_score_formula_witness:
  "relevance_score (snd (filter_and_rank ascii example_settings (ArticleFilter ascii example_settings)
      still_clock newsroom [5, 0, 2, 3]) 0) = 14
   \<and> (\<exists>i title_score description_score reputation_score recency_multiplier.
         relevance_score (snd (filter_and_rank ascii example_settings
            (ArticleFilter ascii example_settings) still_clock newsroom [5, 0, 2, 3]) 0)
           = (title_score * 3.0 + description_score * 1.0 + reputation_score) * recency_multiplier
       \<and> title_score
           = real (spec_keyword_count ascii (include_keywords example_settings) (title (newsroom 0)))
       \<and> description_score
           = real (spec_keyword_count ascii (include_keywords example_settings)
                     (case description (newsroom 0) of None \<Rightarrow> [] | Some d \<Rightarrow> d))
       \<and> 0.5 \<le> reputation_score \<and> reputation_score \<le> 2.0
       \<and> recency_multiplier
           = spec_recency_multiplier (recency_weight example_settings)
               (map_option (age_hours (still_clock (Suc i))) (published_at (newsroom 0))))"
proof -
  let ?self = "ArticleFilter ascii example_settings"
  have range: "- 999999999 \<le> max_age_days example_settings
      \<and> max_age_days example_settings \<le> 999999999"
    by (simp add: example_settings_def)
  have d: "distinct (include_keywords example_settings)"
    by (simp add: example_settings_def lit_def)
  have e: "\<forall>k \<in> set (include_keywords example_settings). word_edges ascii (lower ascii k)"
    by (simp add: example_settings_def word_edges_def lower_def ascii_def lit_def)
  have r: "0 \<in> set (survivors ascii example_settings ?self still_clock newsroom [5, 0, 2, 3])"
    unfolding example_survivors by simp
  from stored_score_formula [OF range r]
  obtain i ts ds rs rm where
    eq: "relevance_score (snd (filter_and_rank ascii example_settings ?self still_clock newsroom
           [5, 0, 2, 3]) 0) = (ts * 3.0 + ds * 1.0 + rs) * rm"
    and special: "distinct (include_keywords example_settings)
        \<and> (\<forall>k \<in> set (include_keywords example_settings). word_edges ascii (lower ascii k)) \<longrightarrow>
        ts = real (spec_keyword_count ascii (include_keywords example_settings) (title (newsroom 0)))
        \<and> ds = real (spec_keyword_count ascii (include_keywords example_settings)
                 (case description (newsroom 0) of None \<Rightarrow> [] | Some d \<Rightarrow> d))"
    and lo: "0.5 \<le> rs" and hi: "rs \<le> 2.0"
    and rm: "rm = spec_recency_multiplier (recency_weight example_settings)
               (map_option (age_hours (still_clock (Suc i))) (published_at (newsroom 0)))"
    by (elim exE conjE)
  have ts: "ts = real (spec_keyword_count ascii (include_keywords example_settings) (title (newsroom 0)))"
    and ds: "ds = real (spec_keyword_count ascii (include_keywords example_settings)
                 (case description (newsroom 0) of None \<Rightarrow> [] | Some d \<Rightarrow> d))"
    using special d e by blast+
  have "\<exists>i title_score description_score reputation_score recency_multiplier.
         relevance_score (snd (filter_and_rank ascii example_settings ?self still_clock newsroom
            [5, 0, 2, 3]) 0)
           = (title_score * 3.0 + description_score * 1.0 + reputation_score) * recency_multiplier
       \<and> title_score
           = real (spec_keyword_count ascii (include_keywords example_settings) (title (newsroom 0)))
       \<and> description_score
           = real (spec_keyword_count ascii (include_keywords example_settings)
                     (case description (newsroom 0) of None \<Rightarrow> [] | Some d \<Rightarrow> d))
       \<and> 0.5 \<le> reputation_score \<and> reputation_score \<le> 2.0
       \<and> recency_multiplier
           = spec_recency_multiplier (recency_weight example_settings)
               (map_option (age_hours (still_clock (Suc i))) (published_at (newsroom 0)))"
    by (intro exI conjI, rule eq, rule ts, rule ds, rule lo, rule hi, rule rm)
  with newsroom_scores show ?thesis
    by (rule conjI)
qed

text \<open>
  A keyword configured twice is counted twice: with the keywords \<open>AI, AI\<close> the title
  \<open>AI\<close> of an undated article from an unknown source scores \<open>(2 * 3.0 + 0.5) * 1 = 6.5\<close>,
  while it matches one distinct keyword.
\<close>

lemma whole_word_AI: "whole_word_in ascii (lit ''ai'') (lit ''ai'')"
  unfolding whole_word_in_def by (rule exI [of _ "[]"], rule exI [of _ "[]"]) simp

lemma lower_AI: "lower ascii (lit ''AI'') = lit ''ai''"
  by code_simp

theorem repeated_keyword_counterexample:
  "relevance_score (snd (filter_and_rank ascii repeated_settings
      (ArticleFilter ascii repeated_settings) still_clock single [0]) 0) = 6.5
   \<and> 0 \<in> set (survivors ascii repeated_settings (ArticleFilter ascii repeated_settings)
               still_clock single [0])
   \<and> spec_keyword_count ascii (include_keywords repeated_settings) (title (single 0)) = 1
   \<and> spec_keyword_count ascii (include_keywords repeated_settings)
        (case description (single 0) of None \<Rightarrow> [] | Some d \<Rightarrow> d) = 0
   \<and> get_source_reputation_score ascii (ArticleFilter ascii repeated_settings) (source (single 0))
       = 0.5
   \<and> published_at (single 0) = None"
proof -
  have "{k \<in> set [lit ''AI'', lit ''AI'']. whole_word_in ascii (lower ascii k) (lower ascii (lit ''AI''))}
      = {lit ''AI''}"
    using whole_word_AI by (auto simp: lower_AI)
  then have t: "spec_keyword_count ascii (include_keywords repeated_settings) (title (single 0)) = 1"
    by (simp add: spec_keyword_count_def repeated_settings_def single_def story_def)
  have "\<not> whole_word_in ascii (lit ''ai'') []"
    by (simp add: whole_word_in_def lit_def)
  then have "{k \<in> set [lit ''AI'', lit ''AI'']. whole_word_in ascii (lower ascii k) (lower ascii [])} = {}"
    by (auto simp: lower_AI) (simp add: lower_def)
  then have dsc: "spec_keyword_count ascii (include_keywords repeated_settings)
        (case description (single 0) of None \<Rightarrow> [] | Some d \<Rightarrow> d) = 0"
    by (simp add: spec_keyword_count_def repeated_settings_def single_def story_def)
  have rep: "get_source_reputation_score ascii (ArticleFilter ascii repeated_settings)
      (source (single 0)) = 0.5"
    by code_simp
  have p: "published_at (single 0) = None"
    by (simp add: single_def story_def)
  have s: "0 \<in> set (survivors ascii repeated_settings (ArticleFilter ascii repeated_settings)
               still_clock single [0])"
    by code_simp
  show ?thesis
    using repeated_score s t dsc rep p by blast
qed

section \<open>Ranking\<close>

lemma sorted_desc_sorted:
  "sorted_wrt (\<lambda>a b. relevance_score (h b) \<le> relevance_score (h a)) (sorted_desc h xs)"
proof -
  have "sorted (map (\<lambda>r. - relevance_score (h r)) (sorted_desc h xs))"
    unfolding sorted_desc_def by (rule sorted_sort_key)
  then show ?thesis
    by (simp add: sorted_map)
qed

lemma sorted_desc_stable:
  "filter (\<lambda>r. relevance_score (h r) = s) (sorted_desc h xs) = filter (\<lambda>r. relevance_score (h r) = s) xs"
  using sort_key_stable [of "\<lambda>r. - relevance_score (h r)" "- s" xs]
  by (simp add: sorted_desc_def)

lemma sorted_desc_mset: "mset (sorted_desc h xs) = mset xs"
  by (simp add: sorted_desc_def)

lemma survivors_subseq: "subseq (survivors py st self clock h articles) articles"
  unfolding survivors_def by (rule subseq_order.trans [OF subseq_filter_left subseq_filter_left])

text \<open>
  C6, as amended. For a non-negative recency weight and a non-negative \<open>max_articles\<close>:
  every computed score is non-negative; where \<open>filter_and_rank\<close> returns, its output is
  sorted by score, largest first, and has at most \<open>max_articles\<close> elements; it is the first
  \<open>max_articles\<close> elements of the stable descending sort of the survivors that meet the
  minimum score, so articles of equal score keep their input order, and no article left out
  scores higher than one returned.
\<close>

theorem ranked_output:
  assumes weight: "0 \<le> recency_weight st" and cap: "0 \<le> max_articles st"
    and run: "filter_and_rank py st (ArticleFilter py st) clock h articles = (Inr out, h')"
  shows "(\<forall>clk a. 0 \<le> calculate_relevance_score py st (ArticleFilter py st) clk a)
       \<and> (\<forall>r \<in> set out. 0 \<le> relevance_score (h' r))
       \<and> sorted_wrt (\<lambda>a b. relevance_score (h' b) \<le> relevance_score (h' a)) out
       \<and> int (length out) \<le> max_articles st
       \<and> (let scored = filter (\<lambda>r. min_relevance_score st \<le> relevance_score (h' r))
                          (survivors py st (ArticleFilter py st) clock h articles)
          in subseq scored articles
           \<and> out = take (nat (max_articles st)) (sorted_desc h' scored)
           \<and> (\<forall>s. prefix (filter (\<lambda>r. relevance_score (h' r) = s) out)
                         (filter (\<lambda>r. relevance_score (h' r) = s) scored))
           \<and> (\<exists>rest. mset (out @ rest) = mset scored
                  \<and> (\<forall>r \<in> set out. \<forall>r' \<in> set rest. relevance_score (h' r') \<le> relevance_score (h' r))))"
proof -
  let ?self = "ArticleFilter py st"
  let ?recent = "survivors py st ?self clock h articles"
  define scored where "scored = filter (\<lambda>r. min_relevance_score st \<le> relevance_score (h' r)) ?recent"
  define ranked where "ranked = sorted_desc h' scored"
  define n where "n = nat (max_articles st)"
  have h': "h' = snd (filter_and_rank py st ?self clock h articles)"
    by (simp add: run)
  have ms: "min_score ?self = min_relevance_score st" and mx: "self_max_articles ?self = max_articles st"
    by (simp_all add: ArticleFilter_def)
  have returns: "fst (filter_and_rank py st ?self clock h articles) = Inr out"
    by (simp add: run)
  note unfold = filter_and_rank_returns [OF returns]
  have hs: "score_loop py st ?self clock 0 ?recent h = h'"
    unfolding h' unfold Let_def by (simp only: snd_conv if_distrib [of snd] if_cancel)
  have "fst (filter_and_rank py st ?self clock h articles)
      = (if scored \<noteq> [] \<and> slice_to ranked (max_articles st) = [] then Inl IndexError
         else Inr (slice_to ranked (max_articles st)))"
    unfolding unfold Let_def hs ms mx scored_def ranked_def
    by (simp only: fst_conv if_distrib [of fst])
  then have "Inr out = (if scored \<noteq> [] \<and> slice_to ranked (max_articles st) = [] then Inl IndexError
         else Inr (slice_to ranked (max_articles st)))"
    by (simp add: run)
  then have "out = slice_to ranked (max_articles st)"
    by (simp split: if_splits)
  then have out: "out = take n ranked"
    using cap by (simp add: slice_to_def n_def)
  have nonneg: "0 \<le> calculate_relevance_score py st ?self clk a" for clk a
    using weight by (rule calculate_relevance_score_nonneg)
  have in_recent: "set out \<subseteq> set ?recent"
    unfolding out ranked_def scored_def sorted_desc_def
    using set_take_subset [of n] by fastforce
  have pos: "0 \<le> relevance_score (h' r)" if "r \<in> set out" for r
  proof -
    from that in_recent have "r \<in> set ?recent" by blast
    from score_loop_member [OF this, of py st ?self clock h] obtain i where
      "relevance_score (h' r) = calculate_relevance_score py st ?self (clock (Suc i)) (h r)"
      unfolding hs by blast
    with nonneg show ?thesis by simp
  qed
  have sorted: "sorted_wrt (\<lambda>a b. relevance_score (h' b) \<le> relevance_score (h' a)) ranked"
    unfolding ranked_def by (rule sorted_desc_sorted)
  then have s_out: "sorted_wrt (\<lambda>a b. relevance_score (h' b) \<le> relevance_score (h' a)) out"
    unfolding out by (rule sorted_wrt_take)
  have len: "int (length out) \<le> max_articles st"
    using cap by (simp add: out n_def)
  have sub: "subseq scored articles"
    unfolding scored_def
    by (rule subseq_order.trans [OF subseq_filter_left survivors_subseq])
  have split: "ranked = out @ drop n ranked"
    by (simp add: out)
  have stable: "prefix (filter (\<lambda>r. relevance_score (h' r) = s) out)
                         (filter (\<lambda>r. relevance_score (h' r) = s) scored)" for s
  proof -
    have "filter (\<lambda>r. relevance_score (h' r) = s) scored
        = filter (\<lambda>r. relevance_score (h' r) = s) (out @ drop n ranked)"
      using sorted_desc_stable [of h' s scored] split by (simp only: ranked_def)
    then show ?thesis
      by (simp add: prefix_def)
  qed
  have m: "mset (out @ drop n ranked) = mset scored"
    using sorted_desc_mset [of h' scored] split by (simp only: ranked_def)
  have top: "\<forall>r \<in> set out. \<forall>r' \<in> set (drop n ranked). relevance_score (h' r') \<le> relevance_score (h' r)"
    using sorted split by (metis sorted_wrt_append)
  have last: "\<exists>rest. mset (out @ rest) = mset scored
      \<and> (\<forall>r \<in> set out. \<forall>r' \<in> set rest. relevance_score (h' r') \<le> relevance_score (h' r))"
    using m top by blast
  show ?thesis
    unfolding Let_def scored_def [symmetric]
    using nonneg pos s_out len sub out stable last
    by (simp add: ranked_def n_def)
qed

theorem ranked_output_witness:
  "filter_and_rank ascii example_settings (ArticleFilter ascii example_settings) still_clock newsroom [5, 0, 2, 3]
     = (Inr [0, 5], snd (filter_and_rank ascii example_settings (ArticleFilter ascii example_settings) still_clock newsroom [5, 0, 2, 3]))
   \<and> sorted_wrt (\<lambda>a b.
          relevance_score (snd (filter_and_rank ascii example_settings (ArticleFilter ascii example_settings) still_clock newsroom [5, 0, 2, 3]) b)
          \<le> relevance_score (snd (filter_and_rank ascii example_settings (ArticleFilter ascii example_settings) still_clock newsroom [5, 0, 2, 3]) a))
        [0, 5]
   \<and> int (length [0::nat, 5]) \<le> max_articles example_settings"
proof -
  have w: "0 \<le> recency_weight example_settings" and c: "0 \<le> max_articles example_settings"
    by (simp_all add: example_settings_def)
  have run: "filter_and_rank ascii example_settings (ArticleFilter ascii example_settings) still_clock newsroom [5, 0, 2, 3]
     = (Inr [0, 5], snd (filter_and_rank ascii example_settings (ArticleFilter ascii example_settings) still_clock newsroom [5, 0, 2, 3]))"
    using newsroom_run by (simp add: prod_eq_iff)
  note r = ranked_output [OF w c run]
  show ?thesis
    using run r [THEN conjunct2, THEN conjunct2, THEN conjunct1]
      r [THEN conjunct2, THEN conjunct2, THEN conjunct2, THEN conjunct1]
    by blast
qed

text \<open>
  A negative \<open>max_articles\<close> cuts from the end of the ranked list: with \<open>max_articles = -1\<close>
  and two articles that pass, one article is returned.
\<close>

theorem negative_cap_counterexample:
  "0 \<le> recency_weight negative_settings
   \<and> fst (filter_and_rank ascii negative_settings (ArticleFilter ascii negative_settings) still_clock newsroom [5, 0]) = Inr [0]
   \<and> \<not> int (length [0::nat]) \<le> max_articles negative_settings"
  using negative_run by (simp add: negative_settings_def example_settings_def)

text \<open>
  C9. With \<open>max_articles = 0\<close> and an article that passes every filter, the cut leaves an
  empty list and the log line that reads its first element raises \<open>IndexError\<close>.
\<close>

theorem zero_cap_raises:
  "fst (filter_and_rank ascii zero_settings (ArticleFilter ascii zero_settings) still_clock newsroom [0]) = Inl IndexError"
  by (rule zero_run)

end
